theory Spec2Isabelle
  imports Complex_Main "HOL-Library.Log_Nat" "HOL-Library.Sublist"
begin

section \<open>JavaScript numbers\<close>

text \<open>
  The program computes with JavaScript \<^verbatim>\<open>number\<close>s, the binary64 values of IEEE 754. A
  finite number is modelled by the rational it denotes; besides these there are the two
  infinities and \<open>NaN\<close>, which every comparison answers with false.
\<close>

datatype jsnum = NaN | NInf | Fin rat | PInf

subsection \<open>Rounding to the nearest double\<close>

text \<open>The power \<open>2\<^sup>n\<close> for an integer \<open>n\<close>.\<close>

definition pow2 :: "int \<Rightarrow> rat" where
  "pow2 n = (if 0 \<le> n then of_int (2 ^ nat n) else 1 / of_int (2 ^ nat (- n)))"

text \<open>
  The exponent of a positive rational \<open>x\<close>: the integer \<open>e\<close> with \<open>2\<^sup>e \<le> x < 2\<^sup>e\<^sup>+\<^sup>1\<close>,
  computed from the bit lengths of numerator and denominator.
\<close>

definition floorlog2 :: "rat \<Rightarrow> int" where
  "floorlog2 x =
     (case quotient_of x of (p, q) \<Rightarrow>
        let d = bitlen p - bitlen q in if pow2 d \<le> x then d else d - 1)"

text \<open>The integer nearest to a rational; a tie goes to the even one.\<close>

definition roundHalfEven :: "rat \<Rightarrow> int" where
  "roundHalfEven q =
     (let f = \<lfloor>q\<rfloor>; r = q - of_int f
      in if r < 1 / 2 then f else if 1 / 2 < r then f + 1 else if even f then f else f + 1)"

text \<open>
  The distance between neighbouring doubles around \<open>x\<close>: a double has 53 significant bits,
  and below the least normal exponent \<open>-1022\<close> the spacing stays at \<open>2\<^sup>-\<^sup>1\<^sup>0\<^sup>7\<^sup>4\<close>
  (the subnormal numbers). \<open>nearest x\<close> is the multiple of that distance nearest to \<open>x\<close>,
  a tie going to the even multiple: round-to-nearest, ties-to-even, the one rounding mode of
  JavaScript.
\<close>

definition ulp :: "rat \<Rightarrow> rat" where
  "ulp x = pow2 (max (floorlog2 \<bar>x\<bar>) (- 1022) - 52)"

definition nearest :: "rat \<Rightarrow> rat" where
  "nearest x = (if x = 0 then 0 else let u = ulp x in of_int (roundHalfEven (x / u)) * u)"

text \<open>
  The double that an operation returns whose exact result is \<open>x\<close>: the nearest double, or
  an infinity where that has left the range of the format (its magnitude has reached
  \<open>2\<^sup>1\<^sup>0\<^sup>2\<^sup>4\<close>).
\<close>

definition double :: "rat \<Rightarrow> jsnum" where
  "double x =
     (let r = nearest x
      in if pow2 1024 \<le> r then PInf else if r \<le> - pow2 1024 then NInf else Fin r)"

subsection \<open>Arithmetic and comparison\<close>

text \<open>
  The operators \<^verbatim>\<open>+\<close>, \<^verbatim>\<open>-\<close>, \<^verbatim>\<open>*\<close>, \<^verbatim>\<open>/\<close>, \<^verbatim>\<open><\<close> and \<^verbatim>\<open><=\<close>. A finite result is
  rounded; division by zero yields an infinity, and an undefined operation (\<open>0 / 0\<close>,
  \<open>\<infinity> - \<infinity>\<close>, \<open>0 * \<infinity>\<close>) yields \<open>NaN\<close>. One feature of IEEE doubles is left out: the
  sign of zero (there is one zero, and as a divisor it counts as \<open>+0\<close>). The operands are
  not required to be doubles themselves: \<open>Fin q\<close> is a number for every rational \<open>q\<close>, and
  what is proved for all of them holds of those that are doubles.
\<close>

instantiation jsnum :: "{plus, uminus, minus, times, inverse, ord}"
begin

fun uminus_jsnum :: "jsnum \<Rightarrow> jsnum" where
  "uminus_jsnum NaN = NaN"
| "uminus_jsnum NInf = PInf"
| "uminus_jsnum (Fin a) = Fin (- a)"
| "uminus_jsnum PInf = NInf"

fun plus_jsnum :: "jsnum \<Rightarrow> jsnum \<Rightarrow> jsnum" where
  "plus_jsnum NaN y = NaN"
| "plus_jsnum x NaN = NaN"
| "plus_jsnum (Fin a) (Fin b) = double (a + b)"
| "plus_jsnum (Fin a) y = y"
| "plus_jsnum x (Fin b) = x"
| "plus_jsnum PInf PInf = PInf"
| "plus_jsnum NInf NInf = NInf"
| "plus_jsnum PInf NInf = NaN"
| "plus_jsnum NInf PInf = NaN"

definition minus_jsnum :: "jsnum \<Rightarrow> jsnum \<Rightarrow> jsnum" where
  "minus_jsnum x y = x + (- y)"

text \<open>The sign of a number that is not \<open>NaN\<close>: \<open>-1\<close>, \<open>0\<close> or \<open>1\<close>.\<close>

fun signum :: "jsnum \<Rightarrow> int" where
  "signum NaN = 0"
| "signum NInf = - 1"
| "signum (Fin a) = (if a < 0 then - 1 else if a = 0 then 0 else 1)"
| "signum PInf = 1"

definition signed_inf :: "int \<Rightarrow> jsnum" where
  "signed_inf s = (if s < 0 then NInf else if s = 0 then NaN else PInf)"

fun times_jsnum :: "jsnum \<Rightarrow> jsnum \<Rightarrow> jsnum" where
  "times_jsnum NaN y = NaN"
| "times_jsnum x NaN = NaN"
| "times_jsnum (Fin a) (Fin b) = double (a * b)"
| "times_jsnum x y = signed_inf (signum x * signum y)"

fun divide_jsnum :: "jsnum \<Rightarrow> jsnum \<Rightarrow> jsnum" where
  "divide_jsnum NaN y = NaN"
| "divide_jsnum x NaN = NaN"
| "divide_jsnum (Fin a) (Fin b) = (if b = 0 then signed_inf (signum (Fin a)) else double (a / b))"
| "divide_jsnum (Fin a) y = Fin 0"
| "divide_jsnum x (Fin b) = signed_inf (signum x * (if b < 0 then - 1 else 1))"
| "divide_jsnum x y = NaN"

definition inverse_jsnum :: "jsnum \<Rightarrow> jsnum" where
  "inverse_jsnum x = divide (Fin 1) x"

fun less_jsnum :: "jsnum \<Rightarrow> jsnum \<Rightarrow> bool" where
  "less_jsnum NaN y = False"
| "less_jsnum x NaN = False"
| "less_jsnum (Fin a) (Fin b) = (a < b)"
| "less_jsnum x NInf = False"
| "less_jsnum PInf y = False"
| "less_jsnum NInf y = True"
| "less_jsnum x PInf = True"

definition less_eq_jsnum :: "jsnum \<Rightarrow> jsnum \<Rightarrow> bool" where
  "less_eq_jsnum x y = (x \<noteq> NaN \<and> y \<noteq> NaN \<and> (x < y \<or> x = y))"

instance ..

end

text \<open>\<^verbatim>\<open>Math.min\<close>, \<^verbatim>\<open>Math.floor\<close> and \<^verbatim>\<open>Math.round\<close> (which rounds a half upwards).\<close>

definition Math_min :: "jsnum \<Rightarrow> jsnum \<Rightarrow> jsnum" where
  "Math_min x y = (if x = NaN \<or> y = NaN then NaN else if x \<le> y then x else y)"

fun Math_floor :: "jsnum \<Rightarrow> jsnum" where
  "Math_floor (Fin a) = Fin (of_int \<lfloor>a\<rfloor>)"
| "Math_floor x = x"

fun Math_round :: "jsnum \<Rightarrow> jsnum" where
  "Math_round (Fin a) = Fin (of_int \<lfloor>a + 1 / 2\<rfloor>)"
| "Math_round x = x"

text \<open>
  Truthiness of a number (\<^verbatim>\<open>!x\<close> is true for \<open>0\<close> and \<open>NaN\<close>) and of a value that may
  be \<^verbatim>\<open>null\<close> or \<^verbatim>\<open>undefined\<close> instead of a number, and the operator \<^verbatim>\<open>x || d\<close>.
\<close>

definition falsy :: "jsnum \<Rightarrow> bool" where
  "falsy x = (x = Fin 0 \<or> x = NaN)"

fun falsy_or_null :: "jsnum option \<Rightarrow> bool" where
  "falsy_or_null None = True"
| "falsy_or_null (Some x) = falsy x"

fun or_else :: "jsnum option \<Rightarrow> jsnum \<Rightarrow> jsnum" where
  "or_else None d = d"
| "or_else (Some x) d = (if falsy x then d else x)"

text \<open>\<^verbatim>\<open>Number.isFinite\<close>.\<close>

definition isFinite :: "jsnum \<Rightarrow> bool" where
  "isFinite x = (case x of Fin a \<Rightarrow> True | _ \<Rightarrow> False)"

text \<open>
  A counter of the program (\<^verbatim>\<open>let n = 0; ... n++\<close>) read as a number. The counters of
  this program count frames, and stay far below \<open>2\<^sup>5\<^sup>3\<close>, where \<^verbatim>\<open>n++\<close> would stop
  being exact.
\<close>

definition num :: "nat \<Rightarrow> jsnum" where
  "num n = Fin (of_nat n)"

section \<open>\<^verbatim>\<open>src/lib/utils.ts\<close>\<close>

subsection \<open>\<^verbatim>\<open>timeToSeconds\<close>\<close>

record TimeValue =
  hours :: jsnum
  minutes :: jsnum
  seconds :: jsnum

definition timeToSeconds :: "TimeValue \<Rightarrow> jsnum" where
  "timeToSeconds time = hours time * Fin 3600 + minutes time * Fin 60 + seconds time"

subsection \<open>Frame records and promises\<close>

record VideoFrameMetadata =
  presentationTime :: jsnum
  expectedDisplayTime :: jsnum
  width :: jsnum
  height :: jsnum
  mediaTime :: jsnum
  presentedFrames :: jsnum
  processingDuration :: jsnum

record FrameInfo =
  dataUrl :: string
  timestamp :: jsnum
  frameNumber :: jsnum
  metadata :: "VideoFrameMetadata option"

text \<open>
  A value that is thrown, or that a promise is rejected with: an \<^verbatim>\<open>Error\<close> object with its
  message, or something that is not an \<^verbatim>\<open>Error\<close>.
\<close>

datatype JsError = Error string | NotAnError

text \<open>
  A promise is pending until the first call of \<^verbatim>\<open>resolve\<close> or \<^verbatim>\<open>reject\<close> settles it;
  later calls change nothing.
\<close>

datatype 'a promise = Pending | Resolved 'a | Rejected JsError

fun settle :: "'a promise \<Rightarrow> 'a promise \<Rightarrow> 'a promise" where
  "settle Pending result = result"
| "settle settled result = settled"

text \<open>
  The options object of the two extraction functions: an absent property is \<open>None\<close>, and
  destructuring puts the default in its place. \<^verbatim>\<open>extractFrames\<close> reads
  \<^verbatim>\<open>maxFrames\<close>, \<^verbatim>\<open>quality\<close> and \<^verbatim>\<open>frameInterval\<close>; \<^verbatim>\<open>extractActualFrames\<close> reads
  \<^verbatim>\<open>maxFrames\<close>, \<^verbatim>\<open>quality\<close> and \<^verbatim>\<open>onProgress\<close>. The callback \<^verbatim>\<open>onProgress\<close> is
  modelled by whether it is there; the values passed to it are logged in the state.
  \<^verbatim>\<open>quality\<close> goes to \<^verbatim>\<open>canvas.toDataURL\<close> and nowhere else: it changes the bytes of a
  data URL, which the model takes from the event as they come.
\<close>

record Options =
  maxFrames :: "jsnum option"
  quality :: "jsnum option"
  frameInterval :: "jsnum option"
  onProgress :: bool

definition withDefault :: "jsnum \<Rightarrow> jsnum option \<Rightarrow> jsnum" where
  "withDefault d v = (case v of None \<Rightarrow> d | Some x \<Rightarrow> x)"

text \<open>
  What the program does to the video element is kept as the list of its calls, in order: an
  assignment to \<^verbatim>\<open>video.currentTime\<close> (which starts a seek), \<^verbatim>\<open>play()\<close>, \<^verbatim>\<open>pause()\<close> and
  \<^verbatim>\<open>requestVideoFrameCallback\<close>.
\<close>

datatype VideoCall = SetCurrentTime jsnum | Play | Pause | RequestVideoFrameCallback

text \<open>
  The three helpers are closures around a promise. Their state has a common part: the calls
  made on the video, the console warnings, the values passed to \<^verbatim>\<open>onProgress\<close>, whether the
  closure's callback is registered with the browser (the \<^verbatim>\<open>seeked\<close> listener, or the one-shot
  frame callback), and the promise. The two extraction closures add the array \<^verbatim>\<open>frames\<close>.
\<close>

record 'a Closure =
  video :: "VideoCall list"
  warnings :: "string list"
  progress :: "jsnum list"
  registered :: bool
  outcome :: "'a promise"

record Capture = "FrameInfo list Closure" +
  frames :: "FrameInfo list"

subsection \<open>\<^verbatim>\<open>extractFrames\<close>: seek, draw, seek again\<close>

text \<open>
  The browser's side is a list of \<^verbatim>\<open>seeked\<close> events, in the order they fire. Each carries
  what the handler reads at that moment: the video's \<^verbatim>\<open>readyState\<close>, and \<open>picture\<close>, the
  data URL that the canvas encodes once the current picture is drawn on it.
\<close>

record SeekedEvent =
  readyState :: nat
  picture :: string

definition HAVE_CURRENT_DATA :: nat where
  "HAVE_CURRENT_DATA = 2"

record ExtractState = Capture +
  currentFrame :: nat

text \<open>
  The listener \<^verbatim>\<open>onSeeked\<close> (utils.ts, lines 76-104), in the closure of \<^verbatim>\<open>startTime\<close>,
  \<^verbatim>\<open>frameInterval\<close> and \<^verbatim>\<open>totalFrames\<close>.
\<close>

definition onSeeked :: "jsnum \<Rightarrow> jsnum \<Rightarrow> jsnum \<Rightarrow> SeekedEvent \<Rightarrow> ExtractState \<Rightarrow> ExtractState" where
  "onSeeked startTime' frameInterval' totalFrames' ev st =
     (if num (currentFrame st) \<ge> totalFrames' then
        st\<lparr>registered := False, outcome := settle (outcome st) (Resolved (frames st))\<rparr>
      else if readyState ev \<ge> HAVE_CURRENT_DATA then
        let timestamp' = startTime' + (num (currentFrame st) * frameInterval' / Fin 1000);
            dataUrl' = picture ev;
            pushed = frames st @
              [\<lparr>dataUrl = dataUrl', timestamp = timestamp',
                frameNumber = num (currentFrame st + 1), metadata = None\<rparr>];
            currentFrame' = currentFrame st + 1
        in st\<lparr>frames := pushed, currentFrame := currentFrame',
               video := video st @
                 [SetCurrentTime (startTime' + (num currentFrame' * frameInterval' / Fin 1000))]\<rparr>
      else st)"

text \<open>An event reaches the listener only while it is registered.\<close>

fun dispatchSeeked :: "jsnum \<Rightarrow> jsnum \<Rightarrow> jsnum \<Rightarrow> SeekedEvent list \<Rightarrow> ExtractState \<Rightarrow> ExtractState" where
  "dispatchSeeked startTime' frameInterval' totalFrames' [] st = st"
| "dispatchSeeked startTime' frameInterval' totalFrames' (ev # evs) st =
     dispatchSeeked startTime' frameInterval' totalFrames' evs
       (if registered st then onSeeked startTime' frameInterval' totalFrames' ev st else st)"

text \<open>
  The local constant \<^verbatim>\<open>totalFrames\<close>, the count the loop runs to (utils.ts, lines 64-71),
  and the state in which the listener is registered: \<^verbatim>\<open>frames\<close> is empty,
  \<^verbatim>\<open>currentFrame\<close> is \<open>0\<close>, the first seek is under way.
\<close>

definition extractTotalFrames :: "jsnum \<Rightarrow> jsnum \<Rightarrow> Options \<Rightarrow> jsnum" where
  "extractTotalFrames startTime' endTime' options =
     (let maxFrames' = withDefault (Fin 100) (maxFrames options);
          frameInterval' = withDefault (Fin 100) (frameInterval options);
          duration' = endTime' - startTime'
      in Math_min (Math_floor (duration' * Fin 1000 / frameInterval')) maxFrames')"

definition extractInit :: "jsnum \<Rightarrow> ExtractState" where
  "extractInit startTime' =
     \<lparr>video = [SetCurrentTime startTime'], warnings = [], progress = [], registered = True,
      outcome = Pending, frames = [], currentFrame = 0\<rparr>"

text \<open>
  \<^verbatim>\<open>extractFrames(video, canvas, startTime, endTime, options)\<close>: the state the given events
  leave behind, and the promise in it. \<open>context2d\<close> says whether
  \<^verbatim>\<open>canvas.getContext("2d")\<close> returned a context; without one the promise resolves at
  once with the empty array, before anything else is done.
\<close>

definition extractFramesRun ::
  "bool \<Rightarrow> jsnum \<Rightarrow> jsnum \<Rightarrow> Options \<Rightarrow> SeekedEvent list \<Rightarrow> ExtractState" where
  "extractFramesRun context2d startTime' endTime' options events =
     (if \<not> context2d then
        \<lparr>video = [], warnings = [], progress = [], registered = False,
         outcome = Resolved [], frames = [], currentFrame = 0\<rparr>
      else dispatchSeeked startTime' (withDefault (Fin 100) (frameInterval options))
             (extractTotalFrames startTime' endTime' options) events (extractInit startTime'))"

definition extractFrames ::
  "bool \<Rightarrow> jsnum \<Rightarrow> jsnum \<Rightarrow> Options \<Rightarrow> SeekedEvent list \<Rightarrow> FrameInfo list promise" where
  "extractFrames context2d startTime' endTime' options events =
     outcome (extractFramesRun context2d startTime' endTime' options events)"

subsection \<open>\<^verbatim>\<open>extractActualFrames\<close>: one capture per presented frame\<close>

text \<open>
  The browser's side is the list of frames it presents while the video plays. A presented
  frame invokes the registered callback, if there is one, with the frame's metadata;
  \<open>framePicture\<close> is the data URL the canvas encodes once that frame is drawn on it.
\<close>

record FrameCallback =
  frameMetadata :: VideoFrameMetadata
  framePicture :: string

record ActualState = Capture +
  frameCount :: nat

text \<open>
  The callback \<^verbatim>\<open>processFrame\<close> (utils.ts, lines 133-177), in the closure of
  \<^verbatim>\<open>startTime\<close>, \<^verbatim>\<open>endTime\<close>, \<^verbatim>\<open>maxFrames\<close> and \<^verbatim>\<open>onProgress\<close>. A registration is for
  one frame: the callback runs again only where it asks to.
\<close>

definition processFrame ::
  "jsnum \<Rightarrow> jsnum \<Rightarrow> jsnum \<Rightarrow> bool \<Rightarrow> FrameCallback \<Rightarrow> ActualState \<Rightarrow> ActualState" where
  "processFrame startTime' endTime' maxFrames' onProgress' cb st =
     (let metadata' = frameMetadata cb in
      if mediaTime metadata' < startTime' then
        st\<lparr>video := video st @ [RequestVideoFrameCallback], registered := True\<rparr>
      else if mediaTime metadata' > endTime' \<or> num (frameCount st) \<ge> maxFrames' then
        st\<lparr>video := video st @ [Pause], registered := False,
           outcome := settle (outcome st) (Resolved (frames st))\<rparr>
      else
        let dataUrl' = framePicture cb;
            pushed = frames st @
              [\<lparr>dataUrl = dataUrl', timestamp = mediaTime metadata',
                frameNumber = presentedFrames metadata', metadata = Some metadata'\<rparr>];
            frameCount' = frameCount st + 1;
            progress' = Math_min
              (((mediaTime metadata' - startTime') / (endTime' - startTime')) * Fin 100) (Fin 100);
            st' = st\<lparr>frames := pushed, frameCount := frameCount',
                      progress := (if onProgress' then progress st @ [progress'] else progress st)\<rparr>
        in if mediaTime metadata' \<le> endTime' \<and> num frameCount' < maxFrames' then
             st'\<lparr>video := video st' @ [RequestVideoFrameCallback], registered := True\<rparr>
           else
             st'\<lparr>video := video st' @ [Pause], registered := False,
                 outcome := settle (outcome st') (Resolved pushed)\<rparr>)"

fun presentFrames ::
  "jsnum \<Rightarrow> jsnum \<Rightarrow> jsnum \<Rightarrow> bool \<Rightarrow> FrameCallback list \<Rightarrow> ActualState \<Rightarrow> ActualState" where
  "presentFrames startTime' endTime' maxFrames' onProgress' [] st = st"
| "presentFrames startTime' endTime' maxFrames' onProgress' (cb # cbs) st =
     presentFrames startTime' endTime' maxFrames' onProgress' cbs
       (if registered st then processFrame startTime' endTime' maxFrames' onProgress' cb st else st)"

text \<open>
  \<^verbatim>\<open>extractActualFrames(video, canvas, startTime, endTime, options)\<close> (utils.ts, lines
  109-189). \<open>rvfc\<close> says whether \<^verbatim>\<open>requestVideoFrameCallback\<close> is in
  \<^verbatim>\<open>HTMLVideoElement.prototype\<close>; if it is, the video is sent to \<^verbatim>\<open>startTime\<close> and played,
  and the first callback is registered.
\<close>

definition notSupported :: string where
  "notSupported = ''requestVideoFrameCallback not supported, falling back to time-based extraction''"

definition actualInit :: "jsnum \<Rightarrow> ActualState" where
  "actualInit startTime' =
     \<lparr>video = [SetCurrentTime startTime', Play, RequestVideoFrameCallback], warnings = [],
      progress = [], registered = True, outcome = Pending, frames = [], frameCount = 0\<rparr>"

definition extractActualFramesRun ::
  "bool \<Rightarrow> bool \<Rightarrow> jsnum \<Rightarrow> jsnum \<Rightarrow> Options \<Rightarrow> FrameCallback list \<Rightarrow> ActualState" where
  "extractActualFramesRun context2d rvfc startTime' endTime' options callbacks =
     (if \<not> context2d then
        \<lparr>video = [], warnings = [], progress = [], registered = False,
         outcome = Resolved [], frames = [], frameCount = 0\<rparr>
      else if rvfc then
        presentFrames startTime' endTime' (withDefault (Fin 100) (maxFrames options))
          (onProgress options) callbacks (actualInit startTime')
      else
        \<lparr>video = [], warnings = [notSupported], progress = [], registered = False,
         outcome = Resolved [], frames = [], frameCount = 0\<rparr>)"

definition extractActualFrames ::
  "bool \<Rightarrow> bool \<Rightarrow> jsnum \<Rightarrow> jsnum \<Rightarrow> Options \<Rightarrow> FrameCallback list \<Rightarrow> FrameInfo list promise" where
  "extractActualFrames context2d rvfc startTime' endTime' options callbacks =
     outcome (extractActualFramesRun context2d rvfc startTime' endTime' options callbacks)"

subsection \<open>\<^verbatim>\<open>analyzeVideoFrames\<close>: counting the presented frames\<close>

record Analysis =
  totalFrames :: jsnum
  duration :: jsnum
  fps :: jsnum

text \<open>
  While the video plays, the browser presents frames, and the promise of \<^verbatim>\<open>video.play()\<close>
  may be rejected, which the program passes on to \<^verbatim>\<open>reject\<close>.
\<close>

datatype VideoEvent = FramePresented VideoFrameMetadata | PlayRejected JsError

record AnalyzeState = "Analysis Closure" +
  frameCount :: nat
  startTime :: "jsnum option"
  lastTime :: "jsnum option"

text \<open>
  The callback \<^verbatim>\<open>countFrame\<close> (utils.ts, lines 207-237), in the closure of
  \<^verbatim>\<open>video.duration\<close> and \<^verbatim>\<open>onProgress\<close>. \<^verbatim>\<open>startTime\<close> is \<^verbatim>\<open>null\<close> at first, and is
  assigned whenever \<^verbatim>\<open>!startTime\<close> holds. Nothing in the body throws, so the \<^verbatim>\<open>catch\<close> block
  has no case here.
\<close>

definition countFrame :: "jsnum \<Rightarrow> bool \<Rightarrow> VideoFrameMetadata \<Rightarrow> AnalyzeState \<Rightarrow> AnalyzeState" where
  "countFrame videoDuration onProgress' metadata' st =
     (let startTime' =
            (if falsy_or_null (startTime st) then Some (mediaTime metadata') else startTime st);
          lastTime' = mediaTime metadata';
          frameCount' = AnalyzeState.frameCount st + 1;
          progress' = Math_min ((mediaTime metadata' / videoDuration) * Fin 100) (Fin 100);
          st' = st\<lparr>startTime := startTime', lastTime := Some lastTime',
                    AnalyzeState.frameCount := frameCount',
                    progress := (if onProgress' then progress st @ [progress'] else progress st)\<rparr>
      in if mediaTime metadata' < videoDuration then
           st'\<lparr>video := video st' @ [RequestVideoFrameCallback], registered := True\<rparr>
         else
           let duration' = lastTime' - or_else startTime' (Fin 0);
               fps' = num frameCount' / duration'
           in st'\<lparr>video := video st' @ [Pause, SetCurrentTime (Fin 0)], registered := False,
                  outcome := settle (outcome st')
                    (Resolved \<lparr>totalFrames = num frameCount', duration = duration', fps = fps'\<rparr>)\<rparr>)"

fun videoEvents :: "jsnum \<Rightarrow> bool \<Rightarrow> VideoEvent list \<Rightarrow> AnalyzeState \<Rightarrow> AnalyzeState" where
  "videoEvents videoDuration onProgress' [] st = st"
| "videoEvents videoDuration onProgress' (FramePresented metadata' # evs) st =
     videoEvents videoDuration onProgress' evs
       (if registered st then countFrame videoDuration onProgress' metadata' st else st)"
| "videoEvents videoDuration onProgress' (PlayRejected err # evs) st =
     videoEvents videoDuration onProgress' evs (st\<lparr>outcome := settle (outcome st) (Rejected err)\<rparr>)"

definition noVideoLoaded :: string where
  "noVideoLoaded = ''No video loaded or video duration is invalid''"

definition analyzeIdle :: AnalyzeState where
  "analyzeIdle =
     \<lparr>video = [], warnings = [], progress = [], registered = False, outcome = Pending,
      frameCount = 0, startTime = None, lastTime = None\<rparr>"

text \<open>
  \<^verbatim>\<open>analyzeVideoFrames(video, onProgress)\<close> (utils.ts, lines 192-261), for a video with the
  given \<^verbatim>\<open>duration\<close>; \<open>None\<close> stands for a property that is \<^verbatim>\<open>undefined\<close>. Without
  \<^verbatim>\<open>requestVideoFrameCallback\<close> the function assumes 30 frames a second.
\<close>

definition analyzeVideoFramesRun ::
  "jsnum option \<Rightarrow> bool \<Rightarrow> bool \<Rightarrow> VideoEvent list \<Rightarrow> AnalyzeState" where
  "analyzeVideoFramesRun videoDuration rvfc onProgress' events =
     (case videoDuration of
        None \<Rightarrow> analyzeIdle\<lparr>outcome := Rejected (Error noVideoLoaded)\<rparr>
      | Some videoDuration' \<Rightarrow>
          if falsy videoDuration' then analyzeIdle\<lparr>outcome := Rejected (Error noVideoLoaded)\<rparr>
          else if rvfc then
            videoEvents videoDuration' onProgress' events
              (analyzeIdle\<lparr>video := [SetCurrentTime (Fin 0), Play, RequestVideoFrameCallback],
                 registered := True\<rparr>)
          else
            let duration' = videoDuration';
                fps' = Fin 30
            in analyzeIdle\<lparr>outcome := Resolved
                 \<lparr>totalFrames = Math_round (duration' * fps'), duration = duration',
                  fps = fps'\<rparr>\<rparr>)"

definition analyzeVideoFrames ::
  "jsnum option \<Rightarrow> bool \<Rightarrow> bool \<Rightarrow> VideoEvent list \<Rightarrow> Analysis promise" where
  "analyzeVideoFrames videoDuration rvfc onProgress' events =
     outcome (analyzeVideoFramesRun videoDuration rvfc onProgress' events)"

text \<open>
  The closure variable \<^verbatim>\<open>startTime\<close> of \<^verbatim>\<open>analyzeVideoFrames\<close> after \<^verbatim>\<open>countFrame\<close> has run
  on the given frames, one after the other.
\<close>

fun startTimeAfter :: "jsnum option \<Rightarrow> VideoFrameMetadata list \<Rightarrow> jsnum option" where
  "startTimeAfter start [] = start"
| "startTimeAfter start (metadata' # later) =
     startTimeAfter (if falsy_or_null start then Some (mediaTime metadata') else start) later"

section \<open>\<^verbatim>\<open>src/app/page.tsx\<close>\<close>

text \<open>The state of the component \<^verbatim>\<open>Home\<close>: one field for each \<^verbatim>\<open>useState\<close>.\<close>

record Page =
  extractedFrames :: "FrameInfo list"
  actualFrames :: "FrameInfo list"
  capturedFrames :: "FrameInfo list"
  startTime :: TimeValue
  endTime :: TimeValue
  frameInterval :: jsnum
  quality :: jsnum
  extractionProgress :: jsnum
  isExtracting :: bool
  videoAnalysis :: "Analysis option"
  isAnalyzing :: bool
  analysisProgress :: jsnum
  analysisError :: "string option"

text \<open>
  What a handler finds in the document and the browser: whether \<^verbatim>\<open>querySelector\<close> finds a
  \<^verbatim>\<open>video\<close> and a \<^verbatim>\<open>canvas\<close> element (the player renders the video element only once a
  file is chosen), whether the canvas gives a 2d context, whether the browser has
  \<^verbatim>\<open>requestVideoFrameCallback\<close>, the video's \<^verbatim>\<open>duration\<close>, and the events to come.
\<close>

record Browser =
  videoElement :: bool
  canvasElement :: bool
  context2d :: bool
  rvfc :: bool
  videoDuration :: "jsnum option"
  seeked :: "SeekedEvent list"
  presented :: "FrameCallback list"
  playing :: "VideoEvent list"

text \<open>What a handler does besides setting state.\<close>

datatype Effect =
    Alert string
  | ConsoleError string
  | CallExtractFrames jsnum jsnum Options
  | CallExtractActualFrames jsnum jsnum Options
  | CallAnalyzeVideoFrames

definition endBeforeStart :: string where
  "endBeforeStart = ''End time must be greater than start time''"

text \<open>
  The handlers are asynchronous: each awaits the helper's promise. A handler is modelled by
  the state and the effects at the moment its last statement has run or, where the promise
  stays pending over all the given events, at the \<^verbatim>\<open>await\<close>.
\<close>

definition handleExtractFrames :: "Browser \<Rightarrow> Page \<Rightarrow> Page \<times> Effect list" where
  "handleExtractFrames browser page =
     (if \<not> videoElement browser \<or> \<not> canvasElement browser then (page, [])
      else
        let startTimeInSeconds = timeToSeconds (Page.startTime page);
            endTimeInSeconds = timeToSeconds (endTime page)
        in if endTimeInSeconds \<le> startTimeInSeconds then (page, [Alert endBeforeStart])
           else
             let options = \<lparr>maxFrames = Some (Fin 100),
                            quality = Some (Page.quality page / Fin 100),
                            frameInterval = Some (Page.frameInterval page), onProgress = False\<rparr>;
                 called = [CallExtractFrames startTimeInSeconds endTimeInSeconds options]
             in case extractFrames (context2d browser) startTimeInSeconds endTimeInSeconds options
                       (seeked browser) of
                  Resolved frames' \<Rightarrow> (page\<lparr>extractedFrames := frames'\<rparr>, called)
                | _ \<Rightarrow> (page, called))"

definition handleExtractActualFrames :: "Browser \<Rightarrow> Page \<Rightarrow> Page \<times> Effect list" where
  "handleExtractActualFrames browser page =
     (if \<not> videoElement browser \<or> \<not> canvasElement browser then (page, [])
      else
        let startTimeInSeconds = timeToSeconds (Page.startTime page);
            endTimeInSeconds = timeToSeconds (endTime page)
        in if endTimeInSeconds \<le> startTimeInSeconds then (page, [Alert endBeforeStart])
           else
             let options = \<lparr>maxFrames = Some (Fin 100),
                            quality = Some (Page.quality page / Fin 100),
                            frameInterval = None, onProgress = True\<rparr>;
                 called = [CallExtractActualFrames startTimeInSeconds endTimeInSeconds options];
                 run = extractActualFramesRun (context2d browser) (rvfc browser) startTimeInSeconds
                         endTimeInSeconds options (presented browser);
                 page' = page\<lparr>isExtracting := True,
                              extractionProgress := last (Fin 0 # progress run)\<rparr>
             in case outcome run of
                  Resolved frames' \<Rightarrow> (page'\<lparr>actualFrames := frames', isExtracting := False\<rparr>, called)
                | _ \<Rightarrow> (page', called))"

definition handleFrameCapture :: "FrameInfo \<Rightarrow> Page \<Rightarrow> Page" where
  "handleFrameCapture frameInfo page = page\<lparr>capturedFrames := capturedFrames page @ [frameInfo]\<rparr>"

definition errorMessage :: "JsError \<Rightarrow> string" where
  "errorMessage error = (case error of Error message \<Rightarrow> message | NotAnError \<Rightarrow> ''Unknown error occurred'')"

definition handleAnalyzeVideo :: "Browser \<Rightarrow> Page \<Rightarrow> Page \<times> Effect list" where
  "handleAnalyzeVideo browser page =
     (if \<not> videoElement browser then (page\<lparr>analysisError := Some ''No video element found''\<rparr>, [])
      else
        let run = analyzeVideoFramesRun (videoDuration browser) (rvfc browser) True (playing browser);
            page' = page\<lparr>isAnalyzing := True, analysisProgress := last (Fin 0 # progress run),
                         analysisError := None, videoAnalysis := None\<rparr>
        in case outcome run of
             Resolved analysis \<Rightarrow>
               (page'\<lparr>videoAnalysis := Some analysis, isAnalyzing := False,
                      analysisProgress := Fin 0\<rparr>,
                [CallAnalyzeVideoFrames])
           | Rejected error \<Rightarrow>
               (page'\<lparr>analysisError := Some (errorMessage error), isAnalyzing := False,
                      analysisProgress := Fin 0\<rparr>,
                [CallAnalyzeVideoFrames, ConsoleError ''Error analyzing video:''])
           | Pending \<Rightarrow> (page', [CallAnalyzeVideoFrames]))"

section \<open>Sample inputs\<close>

text \<open>
  The options object \<^verbatim>\<open>{}\<close>, which is also what a call without the argument gets, and a
  \<^verbatim>\<open>seeked\<close> event at which the video has all its data (\<^verbatim>\<open>HAVE_ENOUGH_DATA\<close>).
\<close>

definition emptyOptions :: Options where
  "emptyOptions = \<lparr>maxFrames = None, quality = None, frameInterval = None, onProgress = False\<rparr>"

definition readyEvent :: SeekedEvent where
  "readyEvent = \<lparr>readyState = 4, picture = ''data:image/jpeg;base64,''\<rparr>"

text \<open>
  Options asking for at most two frames at a given interval, and the two frames that
  \<^verbatim>\<open>extractFrames\<close> captures from second \<open>0\<close> on at an interval of 100 ms. The time
  of the second is \<^verbatim>\<open>100 / 1000\<close>, the double nearest to one tenth, which is
  \<open>3602879701896397 / 2\<^sup>5\<^sup>5\<close>.
\<close>

definition twoOptions :: "rat \<Rightarrow> Options" where
  "twoOptions f =
     \<lparr>maxFrames = Some (Fin 2), quality = None, frameInterval = Some (Fin f), onProgress = False\<rparr>"


text \<open>
  The frame presented at media time \<open>t\<close> by a video of one frame a second, which is its
  frame number \<open>t + 1\<close>, and the record \<^verbatim>\<open>processFrame\<close> makes of it.
\<close>

definition metadataAt :: "rat \<Rightarrow> VideoFrameMetadata" where
  "metadataAt t =
     \<lparr>presentationTime = Fin 0, expectedDisplayTime = Fin 0, width = Fin 640, height = Fin 360,
      mediaTime = Fin t, presentedFrames = Fin (t + 1), processingDuration = Fin 0\<rparr>"

definition frameAt :: "rat \<Rightarrow> FrameCallback" where
  "frameAt t = \<lparr>frameMetadata = metadataAt t, framePicture = ''data:image/jpeg;base64,''\<rparr>"

definition capturedAt :: "rat \<Rightarrow> FrameInfo" where
  "capturedAt t =
     \<lparr>dataUrl = framePicture (frameAt t), timestamp = Fin t, frameNumber = Fin (t + 1),
      metadata = Some (metadataAt t)\<rparr>"

text \<open>The frames of seconds 1 to 3, and options with a limit of two and a half frames.\<close>

definition oneToThree :: "FrameInfo list" where
  "oneToThree = [capturedAt 1, capturedAt 2, capturedAt 3]"

definition fractionalLimit :: Options where
  "fractionalLimit =
     \<lparr>maxFrames = Some (Fin (5 / 2)), quality = None, frameInterval = None, onProgress = True\<rparr>"

text \<open>The frames of a video that presents one frame a second, from second 0 to second 4.\<close>

definition fiveFrames :: "FrameCallback list" where
  "fiveFrames = [frameAt 0, frameAt 1, frameAt 2, frameAt 3, frameAt 4]"

text \<open>Options with nothing but the callback \<^verbatim>\<open>onProgress\<close>.\<close>

definition withProgress :: Options where
  "withProgress = \<lparr>maxFrames = None, quality = None, frameInterval = None, onProgress = True\<rparr>"

text \<open>
  A video of two seconds that plays without an error and presents its frames at the media
  times 0, 1 and 2.
\<close>

definition threeEvents :: "VideoEvent list" where
  "threeEvents =
     [FramePresented (metadataAt 0), FramePresented (metadataAt 1), FramePresented (metadataAt 2)]"

text \<open>
  The state of the component when it is mounted (the arguments of its \<^verbatim>\<open>useState\<close> calls),
  the browser before a file is chosen, when the player has rendered no \<^verbatim>\<open>video\<close> element,
  and the browser with the two-second video loaded.
\<close>

definition initialPage :: Page where
  "initialPage =
     \<lparr>extractedFrames = [], actualFrames = [], capturedFrames = [],
      startTime = \<lparr>hours = Fin 0, minutes = Fin 0, seconds = Fin 0\<rparr>,
      endTime = \<lparr>hours = Fin 0, minutes = Fin 0, seconds = Fin 0\<rparr>,
      frameInterval = Fin 100, quality = Fin 92, extractionProgress = Fin 0,
      isExtracting = False, videoAnalysis = None, isAnalyzing = False,
      analysisProgress = Fin 0, analysisError = None\<rparr>"

definition noFileChosen :: Browser where
  "noFileChosen =
     \<lparr>videoElement = False, canvasElement = True, context2d = True, rvfc = True,
      videoDuration = None, seeked = [], presented = [], playing = []\<rparr>"

definition fileChosen :: Browser where
  "fileChosen =
     \<lparr>videoElement = True, canvasElement = True, context2d = True, rvfc = True,
      videoDuration = Some (Fin 2), seeked = [readyEvent, readyEvent, readyEvent],
      presented = fiveFrames, playing = threeEvents\<rparr>"

text \<open>A browser that has the \<^verbatim>\<open>video\<close> element but no media in it: the duration is \<open>NaN\<close>.\<close>

definition noMedia :: Browser where
  "noMedia =
     \<lparr>videoElement = True, canvasElement = True, context2d = True, rvfc = True,
      videoDuration = Some NaN, seeked = [], presented = [], playing = []\<rparr>"

section \<open>Invariants of the closures\<close>


text \<open>
  And of the closure of \<^verbatim>\<open>extractActualFrames\<close>, for a limit of \<open>m\<close> frames:
  \<^verbatim>\<open>frameCount\<close> counts the frames, there are at most \<open>m\<close>, each was captured inside the
  range, and the promise is pending until the callback stops asking for frames, when it
  holds the array.
\<close>

definition actualInv :: "jsnum \<Rightarrow> jsnum \<Rightarrow> nat \<Rightarrow> ActualState \<Rightarrow> bool" where
  "actualInv startTime' endTime' m st =
     (ActualState.frameCount st = length (frames st) \<and> length (frames st) \<le> m \<and>
      (\<forall>f \<in> set (frames st). startTime' \<le> timestamp f \<and> timestamp f \<le> endTime') \<and>
      (if registered st then outcome st = Pending else outcome st = Resolved (frames st)))"

section \<open>Properties\<close>

subsection \<open>Rounding\<close>

lemma pow2_powi: "pow2 n = 2 powi n"
  by (simp add: pow2_def power_int_def inverse_eq_divide power_one_over)

lemma pow2_less_iff: "((2::rat) powi m < 2 powi n) = (m < n)"
proof
  assume "(2::rat) powi m < 2 powi n"
  show "m < n"
  proof (rule ccontr)
    assume "\<not> m < n"
    then have "(2::rat) powi n \<le> 2 powi m"
      by (intro power_int_increasing) simp_all
    with \<open>(2::rat) powi m < 2 powi n\<close> show False
      by simp
  qed
next
  assume "m < n"
  then show "(2::rat) powi m < 2 powi n"
    by (intro power_int_strict_increasing) simp_all
qed

lemma pow2_le_iff: "((2::rat) powi m \<le> 2 powi n) = (m \<le> n)"
  using pow2_less_iff [of n m] by (simp add: not_less [symmetric])

lemma bitlen_powi:
  assumes "0 < p"
  shows "(2::rat) powi (bitlen p - 1) \<le> of_int p" and "of_int p < (2::rat) powi bitlen p"
proof -
  from assms have pos: "1 \<le> bitlen p"
    by (auto simp: bitlen_alt_def)
  from bitlen_bounds [OF assms] have "(2::int) ^ nat (bitlen p - 1) \<le> p" "p < 2 ^ nat (bitlen p)"
    by simp_all
  then have "(of_int ((2::int) ^ nat (bitlen p - 1)) :: rat) \<le> of_int p"
    and "(of_int p :: rat) < of_int (2 ^ nat (bitlen p))"
    by (simp_all only: of_int_le_iff of_int_less_iff)
  with pos show "(2::rat) powi (bitlen p - 1) \<le> of_int p" and "of_int p < (2::rat) powi bitlen p"
    by (simp_all add: power_int_def)
qed

text \<open>\<open>floorlog2 x\<close> is the exponent of \<open>x\<close>.\<close>

lemma floorlog2_bounds:
  assumes "0 < x"
  shows "2 powi floorlog2 x \<le> x" and "x < 2 powi (floorlog2 x + 1)"
proof -
  obtain p q where pq: "quotient_of x = (p, q)"
    by (cases "quotient_of x")
  then have q: "0 < q" and x: "x = of_int p / of_int q"
    by (simp_all add: quotient_of_denom_pos quotient_of_div)
  from assms x q have p: "0 < p"
    by (simp add: zero_less_divide_iff)
  define d where "d = bitlen p - bitlen q"
  have low: "2 powi (d - 1) \<le> x"
  proof -
    have "d - 1 = bitlen p - 1 - bitlen q"
      by (simp add: d_def)
    then have "(2::rat) powi (d - 1) = 2 powi (bitlen p - 1 - bitlen q)"
      by (simp only:)
    also have "\<dots> = 2 powi (bitlen p - 1) / 2 powi bitlen q"
      by (rule power_int_diff) simp
    also have "\<dots> \<le> of_int p / 2 powi bitlen q"
      by (intro divide_right_mono bitlen_powi p) simp
    also have "\<dots> \<le> of_int p / of_int q"
      using bitlen_powi(2) [OF q] p q by (intro divide_left_mono) simp_all
    finally show ?thesis
      by (simp add: x)
  qed
  have high: "x < 2 powi (d + 1)"
  proof -
    have "x < 2 powi bitlen p / of_int q"
      unfolding x using q by (intro divide_strict_right_mono bitlen_powi p) simp
    also have "\<dots> \<le> 2 powi bitlen p / 2 powi (bitlen q - 1)"
      using bitlen_powi(1) [OF q] q by (intro divide_left_mono) simp_all
    also have "\<dots> = 2 powi (bitlen p - (bitlen q - 1))"
      by (rule power_int_diff [symmetric]) simp
    also have "bitlen p - (bitlen q - 1) = d + 1"
      by (simp add: d_def)
    finally show ?thesis .
  qed
  have e: "floorlog2 x = (if 2 powi d \<le> x then d else d - 1)"
    by (simp add: floorlog2_def pq d_def Let_def pow2_powi)
  show "2 powi floorlog2 x \<le> x"
    using low by (simp add: e)
  show "x < 2 powi (floorlog2 x + 1)"
    using high by (auto simp: e not_le)
qed

lemma floorlog2_mono:
  assumes "0 < x" and "x \<le> y"
  shows "floorlog2 x \<le> floorlog2 y"
proof -
  from assms have y: "0 < y" by simp
  have "(2::rat) powi floorlog2 x < 2 powi (floorlog2 y + 1)"
    using floorlog2_bounds(1) [OF assms(1)] floorlog2_bounds(2) [OF y] assms(2) by simp
  then show ?thesis
    by (simp add: pow2_less_iff)
qed

lemma roundHalfEven_of_int [simp]: "roundHalfEven (of_int n) = n"
  by (simp add: roundHalfEven_def)

lemma roundHalfEven_range: "\<lfloor>q\<rfloor> \<le> roundHalfEven q" "roundHalfEven q \<le> \<lfloor>q\<rfloor> + 1"
  by (simp_all add: roundHalfEven_def Let_def)

lemma roundHalfEven_mono:
  assumes "q \<le> q'"
  shows "roundHalfEven q \<le> roundHalfEven q'"
proof (cases "\<lfloor>q\<rfloor> = \<lfloor>q'\<rfloor>")
  case True
  with assms show ?thesis
    by (auto simp: roundHalfEven_def Let_def)
next
  case False
  with assms have "\<lfloor>q\<rfloor> + 1 \<le> \<lfloor>q'\<rfloor>"
    using floor_mono [OF assms] by simp
  with roundHalfEven_range(2) [of q] roundHalfEven_range(1) [of q'] show ?thesis
    by simp
qed

lemma roundHalfEven_minus: "roundHalfEven (- q) = - roundHalfEven q"
proof (cases "q \<in> \<int>")
  case True
  then obtain n where "q = of_int n"
    by (auto elim: Ints_cases)
  then show ?thesis
    by (simp flip: of_int_minus)
next
  case False
  then have "q \<noteq> of_int \<lfloor>q\<rfloor>"
    by (metis Ints_of_int)
  then have f: "\<lfloor>- q\<rfloor> = - \<lfloor>q\<rfloor> - 1"
    by (simp add: floor_minus ceiling_altdef)
  show ?thesis
    by (auto simp: roundHalfEven_def Let_def f)
qed

lemma ulp_powi: "ulp x = 2 powi (max (floorlog2 \<bar>x\<bar>) (- 1022) - 52)"
  by (simp add: ulp_def pow2_powi)

lemma ulp_pos: "0 < ulp x"
  by (simp add: ulp_powi)

lemma ulp_nonneg: "0 \<le> ulp x"
  using ulp_pos [of x] by simp

lemma ulp_nonzero: "ulp x \<noteq> 0"
  using ulp_pos [of x] by simp

lemma ulp_minus [simp]: "ulp (- x) = ulp x"
  by (simp add: ulp_def)

lemma ulp_scale_mono: "a \<le> b \<Longrightarrow> (of_int a :: rat) * ulp x \<le> of_int b * ulp x"
  by (intro mult_right_mono ulp_nonneg) simp

lemma nearest_unfold:
  "nearest x = (if x = 0 then 0 else of_int (roundHalfEven (x / ulp x)) * ulp x)"
  by (simp add: nearest_def Let_def)

lemma nearest_minus: "nearest (- x) = - nearest x"
  by (simp add: nearest_unfold roundHalfEven_minus)

text \<open>A multiple of the spacing is a double: rounding leaves it as it is.\<close>

lemma nearest_exact:
  assumes "x / ulp x = of_int m"
  shows "nearest x = x"
proof -
  from ulp_nonzero assms have "x = of_int m * ulp x"
    by (simp add: divide_eq_eq)
  with assms show ?thesis
    by (simp add: nearest_unfold)
qed

lemma pow2_53: "(2::rat) powi (e + 1) = 2 ^ 53 * 2 powi (e - 52)"
proof -
  have "e + 1 = 53 + (e - 52)"
    by simp
  then have "(2::rat) powi (e + 1) = 2 powi (53 + (e - 52))"
    by (simp only:)
  also have "\<dots> = 2 powi 53 * 2 powi (e - 52)"
    by (rule power_int_add) simp
  finally show ?thesis
    by simp
qed

lemma pow2_52: "(2::rat) powi e = 2 ^ 52 * 2 powi (e - 52)"
proof -
  have "e = 52 + (e - 52)"
    by simp
  then have "(2::rat) powi e = 2 powi (52 + (e - 52))"
    by (simp only:)
  also have "\<dots> = 2 powi 52 * 2 powi (e - 52)"
    by (rule power_int_add) simp
  finally show ?thesis
    by simp
qed

lemma nearest_upper:
  assumes "0 < x" and "floorlog2 x \<le> e" and "- 1022 \<le> e"
  shows "nearest x \<le> 2 powi (e + 1)"
proof -
  define E where "E = max (floorlog2 x) (- 1022)"
  have u: "ulp x = 2 powi (E - 52)"
    using assms(1) by (simp add: ulp_powi E_def)
  have "x < 2 powi (floorlog2 x + 1)"
    by (rule floorlog2_bounds [OF assms(1)])
  also have "\<dots> \<le> 2 powi (E + 1)"
    by (simp add: pow2_le_iff E_def)
  finally have "x / ulp x < 2 ^ 53"
    by (simp add: u pow2_53 [of E] pos_divide_less_eq)
  then have "x / ulp x \<le> of_int (2 ^ 53)"
    by simp
  from roundHalfEven_mono [OF this] have "roundHalfEven (x / ulp x) \<le> 2 ^ 53"
    by (simp only: roundHalfEven_of_int)
  from ulp_scale_mono [OF this, of x] have "nearest x \<le> 2 ^ 53 * ulp x"
    using assms(1) by (simp add: nearest_unfold)
  also have "\<dots> = 2 powi (E + 1)"
    by (simp add: u pow2_53 [of E])
  also have "\<dots> \<le> 2 powi (e + 1)"
    using assms(2,3) by (simp add: pow2_le_iff E_def)
  finally show ?thesis .
qed

lemma nearest_lower:
  assumes "0 < x" and "- 1022 \<le> floorlog2 x"
  shows "2 powi floorlog2 x \<le> nearest x"
proof -
  have u: "ulp x = 2 powi (floorlog2 x - 52)"
    using assms by (simp add: ulp_powi max_def)
  have "2 powi floorlog2 x \<le> x"
    by (rule floorlog2_bounds [OF assms(1)])
  then have "of_int (2 ^ 52) \<le> x / ulp x"
    by (simp add: u pow2_52 [of "floorlog2 x"] pos_le_divide_eq)
  from roundHalfEven_mono [OF this] have "2 ^ 52 \<le> roundHalfEven (x / ulp x)"
    by (simp only: roundHalfEven_of_int)
  from ulp_scale_mono [OF this, of x] have "2 ^ 52 * ulp x \<le> nearest x"
    using assms(1) by (simp add: nearest_unfold)
  then show ?thesis
    by (simp add: u pow2_52 [of "floorlog2 x"])
qed

lemma nearest_nonneg: "0 \<le> x \<Longrightarrow> 0 \<le> nearest x"
proof -
  assume "0 \<le> x"
  then have "of_int 0 \<le> x / ulp x"
    using ulp_pos [of x] by (simp add: divide_nonneg_pos)
  from roundHalfEven_mono [OF this] have "0 \<le> roundHalfEven (x / ulp x)"
    by (simp only: roundHalfEven_of_int)
  then show ?thesis
    by (simp add: nearest_unfold ulp_nonneg)
qed

lemma nearest_mono_pos:
  assumes "0 < x" and "x \<le> y"
  shows "nearest x \<le> nearest y"
proof -
  from assms have y: "0 < y" by simp
  define Ex where "Ex = max (floorlog2 x) (- 1022)"
  define Ey where "Ey = max (floorlog2 y) (- 1022)"
  have le: "Ex \<le> Ey"
    using floorlog2_mono [OF assms] by (simp add: Ex_def Ey_def)
  show ?thesis
  proof (cases "Ex = Ey")
    case True
    then have u: "ulp x = ulp y"
      using assms(1) y by (simp add: ulp_powi Ex_def Ey_def)
    from assms(2) have "x / ulp y \<le> y / ulp y"
      by (intro divide_right_mono ulp_nonneg)
    from ulp_scale_mono [OF roundHalfEven_mono [OF this], of y] show ?thesis
      using assms(1) y by (simp add: nearest_unfold u)
  next
    case False
    with le have less: "Ex + 1 \<le> Ey" by simp
    then have Ey: "Ey = floorlog2 y" "- 1022 \<le> floorlog2 y"
      by (auto simp: Ex_def Ey_def)
    have "nearest x \<le> 2 powi (Ex + 1)"
      by (rule nearest_upper [OF assms(1)]) (simp_all add: Ex_def)
    also have "\<dots> \<le> 2 powi floorlog2 y"
      using less by (simp add: pow2_le_iff Ey(1))
    also have "\<dots> \<le> nearest y"
      by (rule nearest_lower [OF y Ey(2)])
    finally show ?thesis .
  qed
qed

text \<open>Rounding keeps the order: a greater exact result never gives a smaller double.\<close>

lemma nearest_mono:
  assumes "x \<le> y"
  shows "nearest x \<le> nearest y"
proof -
  consider "0 < x" | "x \<le> 0" "0 \<le> y" | "y < 0"
    using assms by linarith
  then show ?thesis
  proof cases
    case 1
    then show ?thesis
      by (rule nearest_mono_pos) (rule assms)
  next
    case 2
    from 2(1) have "0 \<le> nearest (- x)"
      by (intro nearest_nonneg) simp
    then have "nearest x \<le> 0"
      by (simp add: nearest_minus)
    also have "0 \<le> nearest y"
      by (rule nearest_nonneg [OF 2(2)])
    finally show ?thesis .
  next
    case 3
    then have "nearest (- y) \<le> nearest (- x)"
      using assms by (intro nearest_mono_pos) simp_all
    then show ?thesis
      by (simp add: nearest_minus)
  qed
qed

text \<open>The natural numbers up to \<open>2\<^sup>5\<^sup>3\<close> are doubles.\<close>

lemma nearest_of_nat:
  assumes "n \<le> 2 ^ 53"
  shows "nearest (of_nat n) = of_nat n"
proof (cases "n = 0")
  case True
  then show ?thesis by (simp add: nearest_unfold)
next
  case False
  define x :: rat where "x = of_nat n"
  define e where "e = floorlog2 x"
  from False have pos: "0 < x" and one: "1 \<le> x"
    by (simp_all add: x_def)
  from assms have top: "x \<le> 2 ^ 53"
    unfolding x_def by (metis of_nat_le_iff of_nat_numeral of_nat_power)
  note b = floorlog2_bounds [OF pos, folded e_def]
  have "(2::rat) powi 0 < 2 powi (e + 1)"
    using one b(2) by simp
  then have "0 < e + 1"
    by (simp only: pow2_less_iff)
  then have e0: "0 \<le> e"
    by simp
  have "(2::rat) powi e \<le> 2 powi 53"
    using b(1) top by simp
  then have e53: "e \<le> 53"
    by (simp only: pow2_le_iff)
  have u: "ulp x = 2 powi (e - 52)"
    using pos e0 by (simp add: ulp_powi e_def max_def)
  have "\<exists>m. x / ulp x = of_int m"
  proof (cases "e = 53")
    case True
    with b(1) top have "x = 2 ^ 53"
      by simp
    moreover from True have "ulp x = 2"
      by (simp add: u)
    ultimately have "x / ulp x = of_int (2 ^ 52)"
      by simp
    then show ?thesis ..
  next
    case False
    with e53 have "0 \<le> 52 - e" by simp
    have "x / ulp x = x * 2 powi (52 - e)"
      using power_int_minus [of "2::rat" "e - 52"] by (simp add: u field_simps)
    also have "\<dots> = of_int (int n * 2 ^ nat (52 - e))"
      using \<open>0 \<le> 52 - e\<close> by (simp add: x_def power_int_def)
    finally show ?thesis ..
  qed
  then obtain m where "x / ulp x = of_int m" ..
  then show ?thesis
    unfolding x_def by (rule nearest_exact)
qed

subsection \<open>Comparing numbers\<close>

lemma le_Fin_Fin [simp]: "(Fin a \<le> Fin b) = (a \<le> b)"
  by (auto simp: less_eq_jsnum_def)

lemma le_NaN [simp]: "\<not> (NaN \<le> x)" "\<not> (x \<le> NaN)"
  by (simp_all add: less_eq_jsnum_def)

lemma le_infinite [simp]:
  "(PInf \<le> x) = (x = PInf)" "(x \<le> NInf) = (x = NInf)"
  "(x \<le> PInf) = (x \<noteq> NaN)" "(NInf \<le> x) = (x \<noteq> NaN)"
  by (cases x; auto simp: less_eq_jsnum_def)+


subsection \<open>The rounded operations\<close>

text \<open>
  An operation on finite numbers never yields \<open>NaN\<close>; a greater exact result gives a
  result that is not smaller; and a result that is a natural number up to \<open>2\<^sup>5\<^sup>3\<close> is
  exact.
\<close>

lemma double_cases: "double x = PInf \<or> double x = NInf \<or> double x = Fin (nearest x)"
  by (simp add: double_def Let_def)

lemma double_not_NaN [simp]: "double x \<noteq> NaN"
  using double_cases [of x] by auto

lemma pow2_1024_pos: "0 < pow2 1024"
  by (simp add: pow2_powi)

lemma double_mono:
  assumes "x \<le> y"
  shows "double x \<le> double y"
proof -
  from nearest_mono [OF assms] pow2_1024_pos show ?thesis
    by (auto simp: double_def Let_def)
qed

lemma double_of_nat:
  assumes "n \<le> 2 ^ 53"
  shows "double (of_nat n) = Fin (of_nat n)"
proof -
  have "(of_nat n :: rat) \<le> of_nat (2 ^ 53)"
    using assms by (simp only: of_nat_le_iff)
  also have "\<dots> < pow2 1024"
    by (simp add: pow2_def)
  finally have "(of_nat n :: rat) < pow2 1024" .
  moreover have "- pow2 1024 < 0" "(0::rat) \<le> of_nat n"
    using pow2_1024_pos by simp_all
  then have "- pow2 1024 < (of_nat n :: rat)"
    by (rule less_le_trans)
  ultimately show ?thesis
    by (simp add: double_def nearest_of_nat [OF assms])
qed

lemma double_0 [simp]: "double 0 = Fin 0"
  using double_of_nat [of 0] by simp

lemma double_1 [simp]: "double 1 = Fin 1"
  using double_of_nat [of 1] by simp

lemma double_100: "double 100 = Fin 100"
  using double_of_nat [of 100] by simp

lemma double_nonneg: "0 \<le> x \<Longrightarrow> Fin 0 \<le> double x"
  using double_mono [of 0 x] by simp

lemma double_le_1: "x \<le> 1 \<Longrightarrow> double x \<le> Fin 1"
  using double_mono [of x 1] by simp

lemma double_le_100: "x \<le> 100 \<Longrightarrow> double x \<le> Fin 100"
  using double_mono [of x 100] by (simp add: double_100)

lemma Fin_minus [simp]: "Fin a - Fin b = double (a - b)"
  by (simp add: minus_jsnum_def)

lemma between_Fin:
  assumes "Fin l \<le> z" and "z \<le> Fin u"
  obtains r where "z = Fin r" and "l \<le> r" and "r \<le> u"
  using assms by (cases z) simp_all

lemma isFinite_Fin [simp]: "isFinite (Fin a)"
  by (simp add: isFinite_def)

lemma isFinite_minus:
  assumes "isFinite (e - s)"
  obtains a b where "s = Fin a" and "e = Fin b"
  using assms by (cases e; cases s) (simp_all add: isFinite_def minus_jsnum_def)




text \<open>Products and sums of counters are exact up to \<open>2\<^sup>5\<^sup>3\<close>.\<close>

lemma num_times:
  assumes "a * b \<le> 2 ^ 53"
  shows "num a * Fin (of_nat b) = num (a * b)"
  using double_of_nat [OF assms] by (simp add: num_def)

lemma num_plus:
  assumes "a + b \<le> 2 ^ 53"
  shows "num a + num b = num (a + b)"
  using double_of_nat [OF assms] by (simp add: num_def)

subsection \<open>\<^verbatim>\<open>timeToSeconds\<close>\<close>

text \<open>
  C7, as the code has it. \<^verbatim>\<open>timeToSeconds\<close> returns the value of
  \<^verbatim>\<open>hours * 3600 + minutes * 60 + seconds\<close> in the arithmetic of the language, each
  product and each sum rounded to a double. Where the fields are natural numbers, as the time
  inputs of the page make them, and the number \<open>hours * 3600 + minutes * 60 + seconds\<close> is
  at most \<open>2\<^sup>5\<^sup>3\<close>, nothing is rounded, and the function returns that number.
\<close>

theorem timeToSeconds_formula:
  "timeToSeconds time = hours time * Fin 3600 + minutes time * Fin 60 + seconds time \<and>
   (h * 3600 + m * 60 + s \<le> 2 ^ 53 \<longrightarrow>
      timeToSeconds \<lparr>hours = num h, minutes = num m, seconds = num s\<rparr> =
        num (h * 3600 + m * 60 + s))"
proof (intro conjI impI)
  show "timeToSeconds time = hours time * Fin 3600 + minutes time * Fin 60 + seconds time"
    by (simp add: timeToSeconds_def)
  assume bound: "h * 3600 + m * 60 + s \<le> 2 ^ 53"
  then have "h * 3600 \<le> 2 ^ 53" "m * 60 \<le> 2 ^ 53" "h * 3600 + m * 60 \<le> 2 ^ 53"
    by simp_all
  then have "num h * Fin (of_nat 3600) = num (h * 3600)" "num m * Fin (of_nat 60) = num (m * 60)"
    "num (h * 3600) + num (m * 60) = num (h * 3600 + m * 60)"
    by (simp_all only: num_times num_plus)
  with num_plus [OF bound]
  show "timeToSeconds \<lparr>hours = num h, minutes = num m, seconds = num s\<rparr> =
      num (h * 3600 + m * 60 + s)"
    by (simp add: timeToSeconds_def del: times_jsnum.simps plus_jsnum.simps)
qed

theorem timeToSeconds_formula_witness:
  "(1::nat) * 3600 + 2 * 60 + 3 \<le> 2 ^ 53 \<and>
   timeToSeconds \<lparr>hours = Fin 1, minutes = Fin 2, seconds = Fin 3\<rparr> = Fin 3723"
proof -
  have bound: "(1::nat) * 3600 + 2 * 60 + 3 \<le> 2 ^ 53"
    by simp
  with timeToSeconds_formula [of "\<lparr>hours = Fin 1, minutes = Fin 2, seconds = Fin 3\<rparr>" 1 2 3]
  have "timeToSeconds \<lparr>hours = num 1, minutes = num 2, seconds = num 3\<rparr> =
      num (1 * 3600 + 2 * 60 + 3)"
    by blast
  with bound show ?thesis
    by (simp add: num_def)
qed

text \<open>
  At 2502000000000 hours and one second the number the formula denotes is
  9007200000000001, which is above \<open>2\<^sup>5\<^sup>3\<close> and odd, and so is not a double: the
  function returns 9007200000000000.
\<close>

theorem timeToSeconds_formula_counterexample:
  "timeToSeconds \<lparr>hours = Fin 2502000000000, minutes = Fin 0, seconds = Fin 1\<rparr> =
     Fin 9007200000000000 \<and>
   (2502000000000 * 3600 + 0 * 60 + 1 :: rat) = 9007200000000001 \<and>
   Fin 9007200000000000 \<noteq> Fin 9007200000000001"
  by code_simp

subsection \<open>\<^verbatim>\<open>extractFrames\<close>\<close>

lemma dispatch_not_registered [simp]:
  "\<not> registered st \<Longrightarrow> dispatchSeeked s fi T evs st = st"
  by (induction evs) simp_all







text \<open>
  What the statement of C1 leaves out. Without a 2d context the array is empty whatever the
  count is; a count of \<open>NaN\<close> (an interval of \<open>0\<close> over an empty range gives \<open>0 / 0\<close>) is
  never reached, so the promise stays pending however many events arrive; and a limit that is
  not whole lets the array grow past it.
\<close>

lemma dispatch_pending:
  assumes "registered st" and "outcome st = Pending"
  shows "registered (dispatchSeeked s fi NaN evs st) \<and> outcome (dispatchSeeked s fi NaN evs st) = Pending"
  using assms
  by (induction evs arbitrary: st) (simp_all add: onSeeked_def Let_def)

lemma extractFrames_never_resolves:
  "extractTotalFrames s e options = NaN \<Longrightarrow> extractFrames True s e options events = Pending"
  by (simp add: extractFrames_def extractFramesRun_def dispatch_pending extractInit_def)

lemma extractFrames_zero_interval_empty_range:
  "extractTotalFrames (Fin 1) (Fin 1) (twoOptions 0) = NaN"
  by code_simp

lemma extractFrames_without_context: "extractFrames False s e options events = Resolved []"
  by (simp add: extractFrames_def extractFramesRun_def)

lemma extractFrames_fractional_limit:
  "extractTotalFrames (Fin 0) (Fin 1) fractionalLimit = Fin (5 / 2) \<and>
   map frameNumber (frames (extractFramesRun True (Fin 0) (Fin 1) fractionalLimit
      [readyEvent, readyEvent, readyEvent, readyEvent])) = [Fin 1, Fin 2, Fin 3] \<and>
   \<not> registered (extractFramesRun True (Fin 0) (Fin 1) fractionalLimit
      [readyEvent, readyEvent, readyEvent, readyEvent])"
  by code_simp











text \<open>
  With a positive interval the times can repeat too, and reach \<^verbatim>\<open>endTime\<close>: they are
  rounded. From second \<open>2\<^sup>5\<^sup>3\<close> to second \<open>2\<^sup>5\<^sup>3 + 4\<close> at an interval of 1000 ms the
  count is 4; the doubles from \<open>2\<^sup>5\<^sup>3\<close> on are the even numbers, so the four times
  \<open>startTime + i\<close> come out as \<open>2\<^sup>5\<^sup>3\<close>, \<open>2\<^sup>5\<^sup>3\<close>, \<open>2\<^sup>5\<^sup>3 + 2\<close> and
  \<open>2\<^sup>5\<^sup>3 + 4\<close>.
\<close>

lemma extractFrames_rounded_times:
  "(let run = extractFramesRun True (Fin 9007199254740992) (Fin 9007199254740996)
       (emptyOptions\<lparr>Options.frameInterval := Some (Fin 1000)\<rparr>)
       [readyEvent, readyEvent, readyEvent, readyEvent, readyEvent]
    in outcome run = Resolved (frames run) \<and>
       map timestamp (frames run) =
         [Fin 9007199254740992, Fin 9007199254740992, Fin 9007199254740994,
          Fin 9007199254740996])"
  by code_simp

subsection \<open>\<^verbatim>\<open>extractActualFrames\<close>\<close>

lemma num_le_num [simp]: "(num a \<le> num b) = (a \<le> b)"
  by (simp add: num_def)

lemma num_less_num [simp]: "(num a < num b) = (a < b)"
  by (simp add: num_def)

lemma not_less_le: "x \<noteq> NaN \<Longrightarrow> y \<noteq> NaN \<Longrightarrow> (\<not> x < y) = (y \<le> x)"
  by (cases x; cases y) auto

lemma actualInv_processFrame:
  assumes "actualInv s e m st" and "registered st"
    and "s \<noteq> NaN" and "e \<noteq> NaN" and "mediaTime (frameMetadata cb) \<noteq> NaN"
  shows "actualInv s e m (processFrame s e (num m) p cb st)"
  using assms
  by (auto simp: actualInv_def processFrame_def Let_def not_less_le)

lemma actualInv_presentFrames:
  assumes "actualInv s e m st"
    and "s \<noteq> NaN" and "e \<noteq> NaN" and "\<forall>cb\<in>set cbs. mediaTime (frameMetadata cb) \<noteq> NaN"
  shows "actualInv s e m (presentFrames s e (num m) p cbs st)"
  using assms
  by (induction cbs arbitrary: st) (simp_all add: actualInv_processFrame)

text \<open>
  C2, as the code has it. Where \<^verbatim>\<open>extractActualFrames\<close> resolves on the frame-callback path,
  with \<^verbatim>\<open>maxFrames\<close> (100 by default) a whole number \<open>m \<ge> 0\<close> and neither the range nor
  a frame's media time \<open>NaN\<close>, every frame of the array has its time in
  \<open>[startTime, endTime]\<close>, and there are at most \<open>m\<close> frames.
\<close>

theorem extractActualFrames_bounds:
  assumes resolved: "extractActualFrames True True s e options cbs = Resolved fs"
    and limit: "withDefault (Fin 100) (maxFrames options) = num m"
    and range: "s \<noteq> NaN" "e \<noteq> NaN"
    and times: "\<forall>cb\<in>set cbs. mediaTime (frameMetadata cb) \<noteq> NaN"
  shows "(\<forall>f\<in>set fs. s \<le> timestamp f \<and> timestamp f \<le> e) \<and> length fs \<le> m"
proof -
  let ?st = "extractActualFramesRun True True s e options cbs"
  have "actualInv s e m (actualInit s)"
    by (simp add: actualInv_def actualInit_def)
  from actualInv_presentFrames [OF this range times] have "actualInv s e m ?st"
    by (simp add: extractActualFramesRun_def limit)
  moreover from resolved have "outcome ?st = Resolved fs"
    by (simp add: extractActualFrames_def)
  ultimately show ?thesis
    by (auto simp: actualInv_def split: if_splits)
qed

lemma oneToThree_resolved:
  "extractActualFrames True True (Fin 1) (Fin 3) emptyOptions
     fiveFrames = Resolved oneToThree"
  by code_simp

theorem extractActualFrames_bounds_witness:
  "extractActualFrames True True (Fin 1) (Fin 3) emptyOptions
     fiveFrames = Resolved oneToThree \<and>
   withDefault (Fin 100) (maxFrames emptyOptions) = num 100 \<and>
   list_all (\<lambda>f. Fin 1 \<le> timestamp f \<and> timestamp f \<le> Fin 3) oneToThree \<and>
   length oneToThree \<le> 100"
proof -
  have limit: "withDefault (Fin 100) (maxFrames emptyOptions) = num 100"
    by (simp add: emptyOptions_def withDefault_def num_def)
  have times: "\<forall>cb\<in>set fiveFrames. mediaTime (frameMetadata cb) \<noteq> NaN"
    by (simp add: fiveFrames_def frameAt_def metadataAt_def)
  from extractActualFrames_bounds [OF oneToThree_resolved limit _ _ times]
  have "(\<forall>f\<in>set oneToThree. Fin 1 \<le> timestamp f \<and> timestamp f \<le> Fin 3) \<and>
        length oneToThree \<le> 100"
    by simp
  with oneToThree_resolved limit show ?thesis
    by (simp add: list_all_iff)
qed

text \<open>
  A limit of two and a half frames lets a third frame in: the callback asks whether
  \<open>2 \<ge> 2.5\<close> before it captures, and whether \<open>3 < 2.5\<close> only afterwards.
\<close>

theorem extractActualFrames_bounds_counterexample:
  "extractActualFrames True True (Fin 0) (Fin 10) fractionalLimit
     [frameAt 0, frameAt 1, frameAt 2] = Resolved [capturedAt 0, capturedAt 1, capturedAt 2] \<and>
   \<not> num (length [capturedAt 0, capturedAt 1, capturedAt 2]) \<le>
       withDefault (Fin 100) (maxFrames fractionalLimit)"
  by code_simp

text \<open>
  A media time of \<open>NaN\<close> is neither before the start nor after the end, so the frame is
  captured, with a time that is in no interval.
\<close>

lemma extractActualFrames_nan_time:
  "extractActualFrames True True (Fin 0) (Fin 10) emptyOptions
     [(frameAt 0)\<lparr>frameMetadata := (metadataAt 0)\<lparr>mediaTime := NaN\<rparr>\<rparr>, frameAt 1] =
   Resolved
     [(capturedAt 0)\<lparr>timestamp := NaN, metadata := Some ((metadataAt 0)\<lparr>mediaTime := NaN\<rparr>)\<rparr>]"
  by code_simp

subsection \<open>The values passed to \<^verbatim>\<open>onProgress\<close>\<close>

lemma Math_min_100: "Math_min x (Fin 100) = NaN \<or> Math_min x (Fin 100) \<le> Fin 100"
  by (cases x) (auto simp: Math_min_def)

lemma processFrame_progress:
  assumes "\<forall>p\<in>set (progress st). P p"
    and "\<not> mediaTime (frameMetadata cb) < s \<Longrightarrow> \<not> e < mediaTime (frameMetadata cb) \<Longrightarrow>
         P (Math_min (((mediaTime (frameMetadata cb) - s) / (e - s)) * Fin 100) (Fin 100))"
  shows "\<forall>p\<in>set (progress (processFrame s e m op cb st)). P p"
  using assms by (auto simp: processFrame_def Let_def)

lemma presentFrames_progress:
  assumes "\<forall>p\<in>set (progress st). P p"
    and "\<And>cb. cb \<in> set cbs \<Longrightarrow> \<not> mediaTime (frameMetadata cb) < s \<Longrightarrow>
           \<not> e < mediaTime (frameMetadata cb) \<Longrightarrow>
           P (Math_min (((mediaTime (frameMetadata cb) - s) / (e - s)) * Fin 100) (Fin 100))"
  shows "\<forall>p\<in>set (progress (presentFrames s e m op cbs st)). P p"
  using assms
proof (induction cbs arbitrary: st)
  case Nil
  then show ?case by simp
next
  case (Cons cb cbs)
  have "\<forall>p\<in>set (progress (processFrame s e m op cb st)). P p"
    by (rule processFrame_progress) (use Cons.prems in auto)
  with Cons show ?case
    by simp
qed

lemma actual_progress:
  assumes "\<And>cb. cb \<in> set cbs \<Longrightarrow> \<not> mediaTime (frameMetadata cb) < s \<Longrightarrow>
           \<not> e < mediaTime (frameMetadata cb) \<Longrightarrow>
           P (Math_min (((mediaTime (frameMetadata cb) - s) / (e - s)) * Fin 100) (Fin 100))"
  shows "\<forall>p\<in>set (progress (extractActualFramesRun c r s e options cbs)). P p"
proof (cases "c \<and> r")
  case True
  have "\<forall>p\<in>set (progress (actualInit s)). P p"
    by (simp add: actualInit_def)
  then have "\<forall>p\<in>set (progress (presentFrames s e (withDefault (Fin 100) (maxFrames options))
      (onProgress options) cbs (actualInit s))). P p"
    using assms by (rule presentFrames_progress)
  with True show ?thesis
    by (simp add: extractActualFramesRun_def)
next
  case False
  then show ?thesis
    by (auto simp: extractActualFramesRun_def)
qed

lemma countFrame_progress:
  assumes "\<forall>p\<in>set (progress st). P p"
    and "P (Math_min ((mediaTime md / d) * Fin 100) (Fin 100))"
  shows "\<forall>p\<in>set (progress (countFrame d op md st)). P p"
  using assms by (auto simp: countFrame_def Let_def)

lemma videoEvents_progress:
  assumes "\<forall>p\<in>set (progress st). P p"
    and "\<And>md. FramePresented md \<in> set evs \<Longrightarrow> P (Math_min ((mediaTime md / d) * Fin 100) (Fin 100))"
  shows "\<forall>p\<in>set (progress (videoEvents d op evs st)). P p"
  using assms
proof (induction d op evs st rule: videoEvents.induct)
  case (1 d op st)
  then show ?case by simp
next
  case (2 d op md evs st)
  have "\<forall>p\<in>set (progress (countFrame d op md st)). P p"
    by (rule countFrame_progress) (use 2 in auto)
  with 2 show ?case
    by simp
next
  case (3 d op err evs st)
  then show ?case by simp
qed

lemma analyze_progress:
  assumes "\<And>d' md. d = Some d' \<Longrightarrow> \<not> falsy d' \<Longrightarrow> FramePresented md \<in> set evs \<Longrightarrow>
           P (Math_min ((mediaTime md / d') * Fin 100) (Fin 100))"
  shows "\<forall>p\<in>set (progress (analyzeVideoFramesRun d r op evs)). P p"
proof (cases "\<exists>d'. d = Some d' \<and> \<not> falsy d' \<and> r")
  case True
  then obtain d' where d: "d = Some d'" "\<not> falsy d'" and r: r
    by blast
  let ?init = "analyzeIdle\<lparr>video := [SetCurrentTime (Fin 0), Play, RequestVideoFrameCallback],
    registered := True\<rparr>"
  have "\<forall>p\<in>set (progress ?init). P p"
    by (simp add: analyzeIdle_def)
  then have "\<forall>p\<in>set (progress (videoEvents d' op evs ?init)). P p"
    using assms [OF d] by (rule videoEvents_progress)
  with d r show ?thesis
    by (simp add: analyzeVideoFramesRun_def)
next
  case False
  then show ?thesis
    by (cases d) (auto simp: analyzeVideoFramesRun_def analyzeIdle_def Let_def)
qed

lemma Math_min_range:
  "Fin 0 \<le> w \<Longrightarrow> Fin 0 \<le> Math_min w (Fin 100) \<and> Math_min w (Fin 100) \<le> Fin 100"
  by (cases w) (auto simp: Math_min_def)

text \<open>
  In \<^verbatim>\<open>processFrame\<close>: where the difference \<^verbatim>\<open>endTime - startTime\<close> is finite and above
  \<open>0\<close>, the difference \<^verbatim>\<open>mediaTime - startTime\<close> of a frame in the range lies between
  \<open>0\<close> and it, because rounding keeps the order; so does their quotient between \<open>0\<close> and
  \<open>1\<close>, and its product with 100 between \<open>0\<close> and 100, which are doubles.
\<close>

lemma actual_range:
  assumes finite: "isFinite (e - s)" and positive: "Fin 0 < e - s"
    and mt: "isFinite mt" and inside: "\<not> mt < s" "\<not> e < mt"
  shows "Fin 0 \<le> Math_min (((mt - s) / (e - s)) * Fin 100) (Fin 100) \<and>
         Math_min (((mt - s) / (e - s)) * Fin 100) (Fin 100) \<le> Fin 100"
proof -
  from finite obtain a b where s: "s = Fin a" and e: "e = Fin b"
    by (rule isFinite_minus)
  from mt obtain t where t: "mt = Fin t"
    by (cases mt) (simp_all add: isFinite_def)
  from inside have order: "a \<le> t" "t \<le> b"
    by (simp_all add: s e t)
  from finite positive obtain y where y: "double (b - a) = Fin y" "0 < y"
    by (cases "double (b - a)") (simp_all add: s e isFinite_def)
  have "Fin 0 \<le> double (t - a)" "double (t - a) \<le> Fin y"
    using order double_mono [of "t - a" "b - a"] by (simp_all add: double_nonneg y)
  then obtain x where x: "double (t - a) = Fin x" "0 \<le> x" "x \<le> y"
    by (rule between_Fin)
  have "Fin 0 \<le> double (x / y)" "double (x / y) \<le> Fin 1"
    using x y by (simp_all add: double_nonneg double_le_1)
  then obtain q where q: "double (x / y) = Fin q" "0 \<le> q" "q \<le> 1"
    by (rule between_Fin)
  from y(2) have "y \<noteq> 0"
    by simp
  then have quotient: "((mt - s) / (e - s)) * Fin 100 = double (q * 100)"
    by (simp add: s e t x y q)
  have "Fin 0 \<le> double (q * 100)"
    using q by (simp add: double_nonneg)
  then show ?thesis
    unfolding quotient by (rule Math_min_range)
qed

text \<open>
  In \<^verbatim>\<open>countFrame\<close>: the quotient of a media time that is not negative by a duration above
  \<open>0\<close> is not negative, though it may be infinite; \<^verbatim>\<open>Math.min\<close> brings it down to 100.
\<close>

lemma analyze_range:
  assumes "Fin 0 < d" and "isFinite mt" and "Fin 0 \<le> mt"
  shows "Fin 0 \<le> Math_min ((mt / d) * Fin 100) (Fin 100) \<and>
         Math_min ((mt / d) * Fin 100) (Fin 100) \<le> Fin 100"
proof (rule Math_min_range)
  from assms obtain t where mt: "mt = Fin t" and t: "0 \<le> t"
    by (cases mt) (simp_all add: isFinite_def)
  show "Fin 0 \<le> (mt / d) * Fin 100"
  proof (cases d)
    case (Fin b)
    with assms have b: "0 < b"
      by simp
    with t have "Fin 0 \<le> double (t / b)"
      by (simp add: double_nonneg)
    then show ?thesis
      using b by (cases "double (t / b)") (simp_all add: mt Fin double_nonneg signed_inf_def)
  next
    case PInf
    then show ?thesis
      by (simp add: mt)
  qed (use assms in simp_all)
qed

text \<open>
  C8, as the code has it. Every value passed to \<^verbatim>\<open>onProgress\<close> is a
  \<^verbatim>\<open>Math.min(x, 100)\<close>: it is at most 100, or it is \<open>NaN\<close>. In
  \<^verbatim>\<open>extractActualFrames\<close>, where the difference \<^verbatim>\<open>endTime - startTime\<close> that the program
  computes is finite and above \<open>0\<close> and the media times are finite, and in
  \<^verbatim>\<open>analyzeVideoFrames\<close> with a duration above \<open>0\<close> and media times that are finite and
  not negative, every value lies in \<open>[0, 100]\<close>.
\<close>

theorem progress_range:
  "(\<forall>p\<in>set (progress (extractActualFramesRun c r s e options cbs)). p = NaN \<or> p \<le> Fin 100) \<and>
   (\<forall>p\<in>set (progress (analyzeVideoFramesRun d r' op evs)). p = NaN \<or> p \<le> Fin 100) \<and>
   (isFinite (e - s) \<and> Fin 0 < e - s \<and>
    (\<forall>cb\<in>set cbs. isFinite (mediaTime (frameMetadata cb))) \<longrightarrow>
      (\<forall>p\<in>set (progress (extractActualFramesRun c r s e options cbs)).
         Fin 0 \<le> p \<and> p \<le> Fin 100)) \<and>
   (d = Some d' \<and> Fin 0 < d' \<and>
    (\<forall>md. FramePresented md \<in> set evs \<longrightarrow> isFinite (mediaTime md) \<and> Fin 0 \<le> mediaTime md) \<longrightarrow>
      (\<forall>p\<in>set (progress (analyzeVideoFramesRun d r' op evs)). Fin 0 \<le> p \<and> p \<le> Fin 100))"
proof (intro conjI impI)
  show "\<forall>p\<in>set (progress (extractActualFramesRun c r s e options cbs)). p = NaN \<or> p \<le> Fin 100"
    by (rule actual_progress) (rule Math_min_100)
  show "\<forall>p\<in>set (progress (analyzeVideoFramesRun d r' op evs)). p = NaN \<or> p \<le> Fin 100"
    by (rule analyze_progress) (rule Math_min_100)
next
  assume range: "isFinite (e - s) \<and> Fin 0 < e - s \<and>
    (\<forall>cb\<in>set cbs. isFinite (mediaTime (frameMetadata cb)))"
  show "\<forall>p\<in>set (progress (extractActualFramesRun c r s e options cbs)).
      Fin 0 \<le> p \<and> p \<le> Fin 100"
  proof (rule actual_progress)
    fix cb
    assume "cb \<in> set cbs" "\<not> mediaTime (frameMetadata cb) < s" "\<not> e < mediaTime (frameMetadata cb)"
    with range show "Fin 0 \<le> Math_min (((mediaTime (frameMetadata cb) - s) / (e - s)) * Fin 100) (Fin 100) \<and>
        Math_min (((mediaTime (frameMetadata cb) - s) / (e - s)) * Fin 100) (Fin 100) \<le> Fin 100"
      by (intro actual_range) simp_all
  qed
next
  assume range: "d = Some d' \<and> Fin 0 < d' \<and>
    (\<forall>md. FramePresented md \<in> set evs \<longrightarrow> isFinite (mediaTime md) \<and> Fin 0 \<le> mediaTime md)"
  show "\<forall>p\<in>set (progress (analyzeVideoFramesRun d r' op evs)). Fin 0 \<le> p \<and> p \<le> Fin 100"
  proof (rule analyze_progress)
    fix d'' md
    assume "d = Some d''" "FramePresented md \<in> set evs"
    with range show "Fin 0 \<le> Math_min ((mediaTime md / d'') * Fin 100) (Fin 100) \<and>
        Math_min ((mediaTime md / d'') * Fin 100) (Fin 100) \<le> Fin 100"
      by (intro analyze_range) simp_all
  qed
qed

theorem progress_range_witness:
  "list_all (\<lambda>p. Fin 0 \<le> p \<and> p \<le> Fin 100)
     (progress (extractActualFramesRun True True (Fin 1) (Fin 3) withProgress fiveFrames)) \<and>
   progress (extractActualFramesRun True True (Fin 1) (Fin 3) withProgress fiveFrames) =
     [Fin 0, Fin 50, Fin 100] \<and>
   list_all (\<lambda>p. Fin 0 \<le> p \<and> p \<le> Fin 100)
     (progress (analyzeVideoFramesRun (Some (Fin 2)) True True threeEvents)) \<and>
   progress (analyzeVideoFramesRun (Some (Fin 2)) True True threeEvents) =
     [Fin 0, Fin 50, Fin 100]"
proof -
  note range = progress_range [of True True "Fin 1" "Fin 3" withProgress fiveFrames
      "Some (Fin 2)" True True threeEvents "Fin 2"]
  have frames: "\<forall>cb\<in>set fiveFrames. isFinite (mediaTime (frameMetadata cb))"
    by (simp add: fiveFrames_def frameAt_def metadataAt_def isFinite_def)
  have events: "\<forall>md. FramePresented md \<in> set threeEvents \<longrightarrow>
      isFinite (mediaTime md) \<and> Fin 0 \<le> mediaTime md"
    by (auto simp: threeEvents_def metadataAt_def isFinite_def)
  have difference: "isFinite (Fin 3 - Fin 1)" "Fin 0 < Fin 3 - Fin 1"
    by code_simp+
  from range frames difference have "\<forall>p\<in>set (progress (extractActualFramesRun True True (Fin 1)
      (Fin 3) withProgress fiveFrames)). Fin 0 \<le> p \<and> p \<le> Fin 100"
    by blast
  then have actual: "list_all (\<lambda>p. Fin 0 \<le> p \<and> p \<le> Fin 100)
     (progress (extractActualFramesRun True True (Fin 1) (Fin 3) withProgress fiveFrames))"
    by (simp only: list_all_iff)
  from range events have "\<forall>p\<in>set (progress (analyzeVideoFramesRun (Some (Fin 2)) True True
      threeEvents)). Fin 0 \<le> p \<and> p \<le> Fin 100"
    by simp
  then have analysis: "list_all (\<lambda>p. Fin 0 \<le> p \<and> p \<le> Fin 100)
     (progress (analyzeVideoFramesRun (Some (Fin 2)) True True threeEvents))"
    by (simp only: list_all_iff)
  have "progress (extractActualFramesRun True True (Fin 1) (Fin 3) withProgress fiveFrames) =
     [Fin 0, Fin 50, Fin 100]"
    by code_simp
  moreover have "progress (analyzeVideoFramesRun (Some (Fin 2)) True True threeEvents) =
     [Fin 0, Fin 50, Fin 100]"
    by code_simp
  ultimately show ?thesis
    using actual analysis by (intro conjI)
qed

text \<open>
  A frame at media time \<open>0\<close> in the empty range from \<open>0\<close> to \<open>0\<close>: the value is
  \<open>min(0 / 0 * 100, 100)\<close>, which is \<open>NaN\<close>, and \<open>NaN\<close> is not at most 100.
\<close>

theorem progress_range_counterexample:
  "progress (extractActualFramesRun True True (Fin 0) (Fin 0) withProgress [frameAt 0]) = [NaN] \<and>
   \<not> NaN \<le> Fin 100"
  by code_simp

text \<open>
  A finite \<^verbatim>\<open>startTime\<close> below a finite \<^verbatim>\<open>endTime\<close> is not enough for the bounds: from
  \<open>-2\<^sup>1\<^sup>0\<^sup>2\<^sup>3\<close> to \<open>2\<^sup>1\<^sup>0\<^sup>2\<^sup>3\<close> the difference is infinite, which is what it is for the
  last frame too, and the value is \<open>min(\<infinity> / \<infinity> * 100, 100)\<close>, again \<open>NaN\<close>.
\<close>

lemma progress_overflow:
  "Fin (- pow2 1023) < Fin (pow2 1023) \<and>
   Fin (pow2 1023) - Fin (- pow2 1023) = PInf \<and>
   progress (extractActualFramesRun True True (Fin (- pow2 1023)) (Fin (pow2 1023)) withProgress
     [(frameAt 0)\<lparr>frameMetadata := (metadataAt 0)\<lparr>mediaTime := Fin (pow2 1023)\<rparr>\<rparr>]) = [NaN]"
  by code_simp

subsection \<open>The order of the frame arrays\<close>

lemma onSeeked_appends:
  "frames (onSeeked s fi T ev st) = frames st \<or>
   (\<exists>f. frames (onSeeked s fi T ev st) = frames st @ [f])"
  by (simp add: onSeeked_def Let_def)

lemma processFrame_appends:
  "frames (processFrame s e m p cb st) = frames st \<or>
   (\<exists>f. frames (processFrame s e m p cb st) = frames st @ [f])"
  by (simp add: processFrame_def Let_def)

lemma dispatchSeeked_grows: "prefix (frames st) (frames (dispatchSeeked s fi T evs st))"
proof (induction evs arbitrary: st)
  case Nil
  show ?case by simp
next
  case (Cons ev evs)
  from onSeeked_appends [of s fi T ev st] have "prefix (frames st) (frames (onSeeked s fi T ev st))"
    by auto
  with Cons [of "onSeeked s fi T ev st"] Cons [of st] show ?case
    by (auto intro: prefix_order.trans)
qed

lemma presentFrames_grows: "prefix (frames st) (frames (presentFrames s e m p cbs st))"
proof (induction cbs arbitrary: st)
  case Nil
  show ?case by simp
next
  case (Cons cb cbs)
  from processFrame_appends [of s e m p cb st]
  have "prefix (frames st) (frames (processFrame s e m p cb st))"
    by auto
  with Cons [of "processFrame s e m p cb st"] Cons [of st] show ?case
    by (auto intro: prefix_order.trans)
qed

lemma dispatchSeeked_append:
  "dispatchSeeked s fi T (evs @ rest) st = dispatchSeeked s fi T rest (dispatchSeeked s fi T evs st)"
  by (induction evs arbitrary: st) simp_all

lemma presentFrames_append:
  "presentFrames s e m p (cbs @ rest) st = presentFrames s e m p rest (presentFrames s e m p cbs st)"
  by (induction cbs arbitrary: st) simp_all

text \<open>
  What a run has captured is what the events brought, in their order: the data URLs of the
  array are among the pictures of the \<^verbatim>\<open>seeked\<close> events, and the metadata are among those
  of the presented frames, one after the other.
\<close>

lemma onSeeked_frames:
  "frames (onSeeked s fi T ev st) =
     (if \<not> T \<le> num (currentFrame st) \<and> HAVE_CURRENT_DATA \<le> readyState ev
      then frames st @
        [\<lparr>dataUrl = picture ev, timestamp = s + (num (currentFrame st) * fi / Fin 1000),
          frameNumber = num (currentFrame st + 1), metadata = None\<rparr>]
      else frames st)"
  by (simp add: onSeeked_def Let_def)

lemma processFrame_frames:
  "frames (processFrame s e m p cb st) =
     (if \<not> mediaTime (frameMetadata cb) < s \<and>
         \<not> (e < mediaTime (frameMetadata cb) \<or> m \<le> num (ActualState.frameCount st))
      then frames st @
        [\<lparr>dataUrl = framePicture cb, timestamp = mediaTime (frameMetadata cb),
          frameNumber = presentedFrames (frameMetadata cb),
          metadata = Some (frameMetadata cb)\<rparr>]
      else frames st)"
  by (simp add: processFrame_def Let_def)

lemma dispatchSeeked_pictures:
  "\<exists>new. frames (dispatchSeeked s fi T evs st) = frames st @ new \<and>
     subseq (map dataUrl new) (map picture evs)"
proof (induction evs arbitrary: st)
  case Nil
  show ?case by simp
next
  case (Cons ev evs)
  let ?st = "if registered st then onSeeked s fi T ev st else st"
  from Cons [of ?st] obtain new
    where new: "frames (dispatchSeeked s fi T evs ?st) = frames ?st @ new"
      "subseq (map dataUrl new) (map picture evs)"
    by blast
  have "frames ?st = frames st \<or> (\<exists>f. frames ?st = frames st @ [f] \<and> dataUrl f = picture ev)"
    by (simp add: onSeeked_frames)
  then consider "frames ?st = frames st"
    | f where "frames ?st = frames st @ [f]" "dataUrl f = picture ev"
    by blast
  then show ?case
  proof cases
    case 1
    with new show ?thesis
      by auto
  next
    case 2
    with new have "frames (dispatchSeeked s fi T (ev # evs) st) = frames st @ (f # new)"
      "subseq (map dataUrl (f # new)) (map picture (ev # evs))"
      by simp_all
    then show ?thesis
      by blast
  qed
qed

lemma presentFrames_metadata:
  "\<exists>new. frames (presentFrames s e m p cbs st) = frames st @ new \<and>
     subseq (map metadata new) (map (\<lambda>cb. Some (frameMetadata cb)) cbs)"
proof (induction cbs arbitrary: st)
  case Nil
  show ?case by simp
next
  case (Cons cb cbs)
  let ?st = "if registered st then processFrame s e m p cb st else st"
  from Cons [of ?st] obtain new
    where new: "frames (presentFrames s e m p cbs ?st) = frames ?st @ new"
      "subseq (map metadata new) (map (\<lambda>cb. Some (frameMetadata cb)) cbs)"
    by blast
  have "frames ?st = frames st \<or>
      (\<exists>f. frames ?st = frames st @ [f] \<and> metadata f = Some (frameMetadata cb))"
    by (simp add: processFrame_frames)
  then consider "frames ?st = frames st"
    | f where "frames ?st = frames st @ [f]" "metadata f = Some (frameMetadata cb)"
    by blast
  then show ?case
  proof cases
    case 1
    with new show ?thesis
      by auto
  next
    case 2
    with new have "frames (presentFrames s e m p (cb # cbs) st) = frames st @ (f # new)"
      "subseq (map metadata (f # new)) (map (\<lambda>cb. Some (frameMetadata cb)) (cb # cbs))"
      by simp_all
    then show ?thesis
      by blast
  qed
qed

lemma extractFrames_pictures:
  "subseq (map dataUrl (frames (extractFramesRun c s e options events))) (map picture events)"
  using dispatchSeeked_pictures [of s "withDefault (Fin 100) (Options.frameInterval options)"
      "extractTotalFrames s e options" events "extractInit s"]
  by (auto simp: extractFramesRun_def extractInit_def)

lemma extractActualFrames_metadata:
  "subseq (map metadata (frames (extractActualFramesRun c r s e options cbs)))
     (map (\<lambda>cb. Some (frameMetadata cb)) cbs)"
  using presentFrames_metadata [of s e "withDefault (Fin 100) (maxFrames options)"
      "onProgress options" cbs "actualInit s"]
  by (auto simp: extractActualFramesRun_def actualInit_def)

text \<open>
  C3. \<^verbatim>\<open>handleFrameCapture\<close> appends the new record to \<^verbatim>\<open>capturedFrames\<close>. A call of
  \<^verbatim>\<open>onSeeked\<close> that captures (the count is not reached and the video has its data) appends
  the record of that seek to \<^verbatim>\<open>frames\<close>: the picture of the event, the time of seek
  number \<^verbatim>\<open>currentFrame\<close>, the number \<^verbatim>\<open>currentFrame + 1\<close>; any other call leaves the
  array as it is. A call of \<^verbatim>\<open>processFrame\<close> that captures (the frame is not before
  \<^verbatim>\<open>startTime\<close>, not after \<^verbatim>\<open>endTime\<close>, and the limit is not reached) appends the record
  of that frame: its picture, its media time, its \<^verbatim>\<open>presentedFrames\<close> and its metadata; any
  other call leaves the array as it is. So whatever events follow, the array a run has built
  stays the front part of the array it goes on to build, and the records of an array follow the
  order of the events they were captured at.
\<close>

theorem capture_order:
  "capturedFrames (handleFrameCapture frameInfo page) = capturedFrames page @ [frameInfo] \<and>
   frames (onSeeked s fi T ev st) =
     (if \<not> T \<le> num (currentFrame st) \<and> HAVE_CURRENT_DATA \<le> readyState ev
      then frames st @
        [\<lparr>dataUrl = picture ev, timestamp = s + (num (currentFrame st) * fi / Fin 1000),
          frameNumber = num (currentFrame st + 1), metadata = None\<rparr>]
      else frames st) \<and>
   frames (processFrame s' e' m p cb st') =
     (if \<not> mediaTime (frameMetadata cb) < s' \<and>
         \<not> (e' < mediaTime (frameMetadata cb) \<or> m \<le> num (ActualState.frameCount st'))
      then frames st' @
        [\<lparr>dataUrl = framePicture cb, timestamp = mediaTime (frameMetadata cb),
          frameNumber = presentedFrames (frameMetadata cb),
          metadata = Some (frameMetadata cb)\<rparr>]
      else frames st') \<and>
   prefix (frames (extractFramesRun c s e options events))
     (frames (extractFramesRun c s e options (events @ later))) \<and>
   prefix (frames (extractActualFramesRun c r s' e' options' cbs))
     (frames (extractActualFramesRun c r s' e' options' (cbs @ later'))) \<and>
   subseq (map dataUrl (frames (extractFramesRun c s e options events))) (map picture events) \<and>
   subseq (map metadata (frames (extractActualFramesRun c r s' e' options' cbs)))
     (map (\<lambda>cb. Some (frameMetadata cb)) cbs)"
proof (intro conjI)
  show "capturedFrames (handleFrameCapture frameInfo page) = capturedFrames page @ [frameInfo]"
    by (simp add: handleFrameCapture_def)
  show "prefix (frames (extractFramesRun c s e options events))
     (frames (extractFramesRun c s e options (events @ later)))"
    by (simp add: extractFramesRun_def dispatchSeeked_append dispatchSeeked_grows)
  show "prefix (frames (extractActualFramesRun c r s' e' options' cbs))
     (frames (extractActualFramesRun c r s' e' options' (cbs @ later')))"
    by (simp add: extractActualFramesRun_def presentFrames_append presentFrames_grows)
qed (rule onSeeked_frames processFrame_frames extractFrames_pictures
    extractActualFrames_metadata)+

text \<open>
  At a run of \<^verbatim>\<open>extractActualFrames\<close> from second 1 to second 3 over the frames of the
  seconds 0 to 4: the array holds the records of the frames 1, 2 and 3, in that order.
\<close>

lemma capture_order_example:
  "frames (extractActualFramesRun True True (Fin 1) (Fin 3) emptyOptions fiveFrames) =
     [capturedAt 1, capturedAt 2, capturedAt 3]"
  by code_simp

subsection \<open>Without \<^verbatim>\<open>requestVideoFrameCallback\<close>\<close>

text \<open>
  C6, as the code has it. Where the browser has no \<^verbatim>\<open>requestVideoFrameCallback\<close>,
  \<^verbatim>\<open>extractActualFrames\<close> resolves with the empty array, captures nothing and neither seeks
  nor plays the video. It warns on the console if the canvas gave it a 2d context; if not, it
  has returned before the test that warns.
\<close>

theorem no_frame_callback:
  "extractActualFrames c False s e options cbs = Resolved [] \<and>
   warnings (extractActualFramesRun c False s e options cbs) = (if c then [notSupported] else []) \<and>
   frames (extractActualFramesRun c False s e options cbs) = [] \<and>
   video (extractActualFramesRun c False s e options cbs) = []"
  by (simp add: extractActualFrames_def extractActualFramesRun_def)

text \<open>No context and no \<^verbatim>\<open>requestVideoFrameCallback\<close>: the empty array, and no warning.\<close>

theorem no_frame_callback_counterexample:
  "extractActualFrames False False (Fin 0) (Fin 1) emptyOptions [] = Resolved [] \<and>
   warnings (extractActualFramesRun False False (Fin 0) (Fin 1) emptyOptions []) = []"
  by (simp add: extractActualFrames_def extractActualFramesRun_def)

subsection \<open>\<^verbatim>\<open>analyzeVideoFrames\<close> and \<^verbatim>\<open>handleAnalyzeVideo\<close>\<close>

text \<open>
  C5. Where \<^verbatim>\<open>video.duration\<close> is falsy (undefined, zero or \<open>NaN\<close>),
  \<^verbatim>\<open>analyzeVideoFrames\<close> rejects with the error whose message is
  \<^verbatim>\<open>No video loaded or video duration is invalid\<close>, and \<^verbatim>\<open>handleAnalyzeVideo\<close>, run on
  such a video, ends with that message in \<^verbatim>\<open>analysisError\<close> and with \<^verbatim>\<open>videoAnalysis\<close>
  null.
\<close>

theorem analyze_rejects_without_duration:
  assumes "d = None \<or> d = Some (Fin 0) \<or> d = Some NaN"
  shows "analyzeVideoFrames d r op evs = Rejected (Error noVideoLoaded) \<and>
         (videoElement browser \<and> videoDuration browser = d \<longrightarrow>
            analysisError (fst (handleAnalyzeVideo browser page)) = Some noVideoLoaded \<and>
            videoAnalysis (fst (handleAnalyzeVideo browser page)) = None)"
proof -
  from assms have "outcome (analyzeVideoFramesRun d r' op' evs') = Rejected (Error noVideoLoaded)"
    for r' op' evs'
    by (auto simp: analyzeVideoFramesRun_def falsy_def)
  then show ?thesis
    by (simp add: analyzeVideoFrames_def handleAnalyzeVideo_def Let_def errorMessage_def)
qed

theorem analyze_rejects_without_duration_witness:
  "analyzeVideoFrames (Some NaN) True True [] = Rejected (Error noVideoLoaded) \<and>
   videoElement noMedia \<and> videoDuration noMedia = Some NaN \<and>
   analysisError (fst (handleAnalyzeVideo noMedia initialPage)) = Some noVideoLoaded \<and>
   videoAnalysis (fst (handleAnalyzeVideo noMedia initialPage)) = None"
proof -
  have element: "videoElement noMedia" "videoDuration noMedia = Some NaN"
    by (simp_all add: noMedia_def)
  from analyze_rejects_without_duration [of "Some NaN" True True "[]" noMedia initialPage] element
  show ?thesis
    by simp
qed

text \<open>Any rejection ends in \<^verbatim>\<open>analysisError\<close>, as the message of the error or as a fixed text.\<close>

lemma handleAnalyzeVideo_rejected:
  assumes "videoElement browser"
    and "analyzeVideoFrames (videoDuration browser) (rvfc browser) True (playing browser) = Rejected err"
  shows "analysisError (fst (handleAnalyzeVideo browser page)) = Some (errorMessage err) \<and>
         videoAnalysis (fst (handleAnalyzeVideo browser page)) = None \<and>
         \<not> isAnalyzing (fst (handleAnalyzeVideo browser page))"
  using assms by (simp add: analyzeVideoFrames_def handleAnalyzeVideo_def Let_def)

text \<open>
  The other rejection: if the promise of \<^verbatim>\<open>video.play()\<close> is rejected before the count is
  done, the analysis is rejected with the same value.
\<close>

lemma play_rejected:
  "\<not> falsy d \<Longrightarrow> analyzeVideoFrames (Some d) True op (PlayRejected err # evs) = Rejected err"
proof -
  have "outcome (videoEvents d op evs st) = Rejected err" if "outcome st = Rejected err" for st
    using that
  proof (induction d op evs st rule: videoEvents.induct)
    case (2 d op md evs st)
    then show ?case
      by (simp add: countFrame_def Let_def)
  qed simp_all
  then show ?thesis if "\<not> falsy d"
    using that by (simp add: analyzeVideoFrames_def analyzeVideoFramesRun_def analyzeIdle_def)
qed

text \<open>
  C10 at a video of two seconds whose frames are presented at the media times 0, 1 and 2. The
  test \<^verbatim>\<open>!startTime\<close> holds for \<^verbatim>\<open>null\<close> and for \<open>0\<close> alike, so the time \<open>0\<close> of the
  first frame is overwritten by the time \<open>1\<close> of the second: the duration comes out as
  \<open>2 - 1\<close> and the rate as 3 frames a second, not as \<open>2 - 0\<close> and 1.5.
\<close>

theorem analyze_first_frame_at_zero:
  "analyzeVideoFrames (Some (Fin 2)) True True threeEvents =
     Resolved \<lparr>totalFrames = Fin 3, duration = Fin 1, fps = Fin 3\<rparr>"
  by code_simp

text \<open>The path without \<^verbatim>\<open>requestVideoFrameCallback\<close> does what C10 says of it.\<close>

lemma analyze_fallback:
  "\<not> falsy d \<Longrightarrow> analyzeVideoFrames (Some d) False op evs =
     Resolved \<lparr>totalFrames = Math_round (d * Fin 30), duration = d, fps = Fin 30\<rparr>"
  by (simp add: analyzeVideoFrames_def analyzeVideoFramesRun_def analyzeIdle_def Let_def)

text \<open>
  What \<^verbatim>\<open>analyzeVideoFrames\<close> resolves with in general, when the video plays without an
  error: it counts the frames up to the first one that is not before the end of the video,
  and takes the duration from the first counted frame whose media time is truthy (or from
  \<open>0\<close>, if there is none) to that last frame. The rate is the count over that duration.
\<close>

lemma settle_settled [simp]: "current \<noteq> Pending \<Longrightarrow> settle current result = current"
  by (cases current) simp_all

lemma videoEvents_settled:
  "\<not> registered st \<Longrightarrow> outcome st \<noteq> Pending \<Longrightarrow> outcome (videoEvents d op evs st) = outcome st"
  by (induction d op evs st rule: videoEvents.induct) simp_all

lemma countFrame_continues:
  assumes "outcome st = Pending" and "mediaTime x < d"
  shows "registered (countFrame d op x st)" and "outcome (countFrame d op x st) = Pending"
    and "AnalyzeState.frameCount (countFrame d op x st) = AnalyzeState.frameCount st + 1"
    and "AnalyzeState.startTime (countFrame d op x st) =
       (if falsy_or_null (AnalyzeState.startTime st) then Some (mediaTime x)
        else AnalyzeState.startTime st)"
  using assms by (simp_all add: countFrame_def Let_def)

lemma countFrame_resolves:
  assumes "outcome st = Pending" and "\<not> mediaTime final < d"
  shows "\<not> registered (countFrame d op final st)"
    and "outcome (countFrame d op final st) =
     Resolved
       \<lparr>totalFrames = num (AnalyzeState.frameCount st + 1),
        duration = mediaTime final -
          or_else (startTimeAfter (AnalyzeState.startTime st) [final]) (Fin 0),
        fps = num (AnalyzeState.frameCount st + 1) /
          (mediaTime final -
           or_else (startTimeAfter (AnalyzeState.startTime st) [final]) (Fin 0))\<rparr>"
  using assms by (simp_all add: countFrame_def Let_def)

lemma videoEvents_counts:
  assumes "registered st" and "outcome st = Pending"
    and "\<forall>x\<in>set counted. mediaTime x < d" and "\<not> mediaTime final < d"
  shows "outcome (videoEvents d op (map FramePresented (counted @ final # later)) st) =
     Resolved
       \<lparr>totalFrames = num (AnalyzeState.frameCount st + length counted + 1),
        duration = mediaTime final -
          or_else (startTimeAfter (AnalyzeState.startTime st) (counted @ [final])) (Fin 0),
        fps = num (AnalyzeState.frameCount st + length counted + 1) /
          (mediaTime final -
           or_else (startTimeAfter (AnalyzeState.startTime st) (counted @ [final])) (Fin 0))\<rparr>"
  using assms
proof (induction counted arbitrary: st)
  case Nil
  from countFrame_resolves [OF Nil(2,4), of op]
  have "outcome (videoEvents d op (map FramePresented later) (countFrame d op final st)) =
      outcome (countFrame d op final st)"
    by (intro videoEvents_settled) simp_all
  with countFrame_resolves(2) [OF Nil(2,4), of op] Nil(1) show ?case
    by simp
next
  case (Cons x counted)
  from Cons.prems have x: "mediaTime x < d" and rest: "\<forall>x\<in>set counted. mediaTime x < d"
    by simp_all
  note step = countFrame_continues [OF Cons.prems(2) x, of op]
  from Cons.IH [OF step(1,2) rest Cons.prems(4)] Cons.prems(1) show ?case
    by (simp add: step(3,4))
qed

lemma analyze_counts:
  assumes "\<not> falsy d" and "\<forall>x\<in>set counted. mediaTime x < d" and "\<not> mediaTime final < d"
  shows "analyzeVideoFrames (Some d) True op (map FramePresented (counted @ final # later)) =
     Resolved
       \<lparr>totalFrames = num (length counted + 1),
        duration = mediaTime final - or_else (startTimeAfter None (counted @ [final])) (Fin 0),
        fps = num (length counted + 1) /
          (mediaTime final - or_else (startTimeAfter None (counted @ [final])) (Fin 0))\<rparr>"
proof -
  let ?init = "analyzeIdle\<lparr>video := [SetCurrentTime (Fin 0), Play, RequestVideoFrameCallback],
    registered := True\<rparr>"
  have init: "registered ?init" "outcome ?init = Pending"
    "AnalyzeState.frameCount ?init = 0" "AnalyzeState.startTime ?init = None"
    by (simp_all add: analyzeIdle_def)
  from videoEvents_counts [OF init(1,2) assms(2,3), of op later] show ?thesis
    by (simp add: analyzeVideoFrames_def analyzeVideoFramesRun_def assms(1) init(3,4))
qed

lemma startTimeAfter_truthy:
  "\<not> falsy_or_null start \<Longrightarrow> startTimeAfter start later = start"
  by (induction later) simp_all

lemma startTimeAfter_first:
  "\<not> falsy (mediaTime first) \<Longrightarrow> startTimeAfter None (first # later) = Some (mediaTime first)"
  by (simp add: startTimeAfter_truthy)

text \<open>So C10 holds of every run whose first frame is not at the media time \<open>0\<close>.\<close>

lemma analyze_duration_from_first:
  assumes "\<not> falsy d" and "\<forall>x\<in>set counted. mediaTime x < d" and "\<not> mediaTime final < d"
    and "\<not> falsy (mediaTime (hd (counted @ [final])))"
  shows "analyzeVideoFrames (Some d) True op (map FramePresented (counted @ final # later)) =
     Resolved
       \<lparr>totalFrames = num (length counted + 1),
        duration = mediaTime final - mediaTime (hd (counted @ [final])),
        fps = num (length counted + 1) / (mediaTime final - mediaTime (hd (counted @ [final])))\<rparr>"
proof -
  from assms(4) have "startTimeAfter None (counted @ [final]) = Some (mediaTime (hd (counted @ [final])))"
    by (cases counted) (simp_all add: startTimeAfter_truthy)
  with assms(4) analyze_counts [OF assms(1-3), of op later] show ?thesis
    by simp
qed

subsection \<open>The guards of the extraction handlers\<close>

text \<open>
  C4, as the code has it. Where the end time in seconds is not after the start time, both
  extraction handlers leave the state as it is and call no extraction function; they show
  the alert \<^verbatim>\<open>End time must be greater than start time\<close> if the document has a
  \<^verbatim>\<open>video\<close> and a \<^verbatim>\<open>canvas\<close> element, and nothing if it lacks one: that test comes
  first.
\<close>

theorem extraction_guard:
  assumes "timeToSeconds (endTime page) \<le> timeToSeconds (Page.startTime page)"
  shows "handleExtractFrames browser page =
           (page, if videoElement browser \<and> canvasElement browser then [Alert endBeforeStart] else []) \<and>
         handleExtractActualFrames browser page =
           (page, if videoElement browser \<and> canvasElement browser then [Alert endBeforeStart] else [])"
  using assms by (simp add: handleExtractFrames_def handleExtractActualFrames_def Let_def)

theorem extraction_guard_witness:
  "timeToSeconds (endTime initialPage) \<le> timeToSeconds (Page.startTime initialPage) \<and>
   handleExtractFrames fileChosen initialPage = (initialPage, [Alert endBeforeStart]) \<and>
   handleExtractActualFrames fileChosen initialPage = (initialPage, [Alert endBeforeStart])"
proof -
  have guard: "timeToSeconds (endTime initialPage) \<le> timeToSeconds (Page.startTime initialPage)"
    by code_simp
  have elements: "videoElement fileChosen \<and> canvasElement fileChosen"
    by (simp add: fileChosen_def)
  from extraction_guard [OF guard, of fileChosen] guard elements show ?thesis
    by simp
qed

text \<open>
  Before a file is chosen there is no \<^verbatim>\<open>video\<close> element: with the times as they are at
  the start, both \<open>0:0:0\<close>, the handlers return without an alert.
\<close>

theorem extraction_guard_counterexample:
  "timeToSeconds (endTime initialPage) \<le> timeToSeconds (Page.startTime initialPage) \<and>
   handleExtractFrames noFileChosen initialPage = (initialPage, []) \<and>
   handleExtractActualFrames noFileChosen initialPage = (initialPage, [])"
  by code_simp

end
